theory Spec2Isabelle
  imports Complex_Main
begin

section \<open>Chat-template metadata (swift/llm/template/register.py)\<close>

subsection \<open>Data model\<close>

text \<open>
  A \<open>Prompt\<close> is a Python list whose elements are either a piece of text (\<open>str\<close>) or a
  list of tokens; a token is an integer id or the name of a tokenizer attribute such as
  \<open>eos_token_id\<close> (\<open>List[Union[str, List[int], List[str]]]\<close>).
\<close>

datatype tok = TInt int | TStr string

datatype Context = Str string | Toks "tok list"

type_synonym Prompt = "Context list"

text \<open>The exceptions the modelled code can raise.\<close>

datatype error = AssertionError | AttributeError | ValueError | TypeError | ZeroDivisionError

text \<open>
  The dataclass fields of \<open>TemplateMeta\<close>, in declaration order. \<open>template_cls\<close> is a class
  object; only its identity matters here, so it is modelled by the class's name.
  The record is parametric in what a list-valued field holds: \<open>'p\<close> for the prompts and
  the stop words, \<open>'t\<close> for the placeholder tokens. With the lists themselves
  (\<open>fields\<close>, \<open>TemplateMeta\<close>) it describes the values; with addresses of list objects
  (\<open>fields_ref\<close>, \<open>TemplateMeta_ref\<close>, further down) it describes which objects are shared.
\<close>

record ('p, 't) fields_of =
  template_type :: string
  prefix :: 'p
  prompt :: 'p
  chat_sep :: "'p option"
  suffix :: 'p
  template_cls :: string
  tool_prompt :: "'p option"
  system_prefix :: "'p option"
  auto_add_bos :: bool
  default_system :: "string option"
  stop_words :: 'p
  placeholder_tokens :: 't
  skip_prompt :: bool
  default_tools_prompt :: string
  support_stream :: bool

text \<open>
  A constructed \<open>TemplateMeta\<close>: the fields plus the attributes \<open>__post_init__\<close> sets.
  \<open>system_prompt\<close> is only assigned on the post-system path, hence the option.
\<close>

record ('p, 't) TemplateMeta_of = "('p, 't) fields_of" +
  is_post_system :: bool
  system_prompt :: "'p option"
  support_system :: bool
  support_multi_round :: bool

type_synonym fields = "(Prompt, tok list) fields_of"

type_synonym TemplateMeta = "(Prompt, tok list) TemplateMeta_of"

subsection \<open>Python string primitives\<close>

definition SYSTEM :: string where
  "SYSTEM = ''{{SYSTEM}}''"

text \<open>\<open>s.startswith(pat)\<close>.\<close>

definition startswith :: "string \<Rightarrow> string \<Rightarrow> bool" where
  "startswith pat s = (take (length pat) s = pat)"

text \<open>\<open>pat in s\<close> for two strings: \<open>pat\<close> occurs in \<open>s\<close> as a contiguous substring.\<close>

primrec str_contains :: "string \<Rightarrow> string \<Rightarrow> bool" where
  "str_contains pat [] = (pat = [])"
| "str_contains pat (c # cs) = (startswith pat (c # cs) \<or> str_contains pat cs)"

text \<open>
  \<open>s.replace(old, new)\<close>: one scan from the left; at each position where \<open>old\<close> starts it
  is replaced and the scan resumes after it, so the occurrences replaced do not overlap
  and the text produced is not scanned again. For the empty \<open>old\<close> Python inserts \<open>new\<close>
  before every character and at the end.
\<close>

function str_replace :: "string \<Rightarrow> string \<Rightarrow> string \<Rightarrow> string" where
  "str_replace old new s =
     (if old = [] then new @ concat (map (\<lambda>c. c # new) s)
      else case s of
        [] \<Rightarrow> []
      | c # cs \<Rightarrow>
          if startswith old s then new @ str_replace old new (drop (length old) s)
          else c # str_replace old new cs)"
  by pat_completeness auto
termination
  by (relation "measure (\<lambda>(old, new, s). length s)") auto

declare str_replace.simps [simp del]

text \<open>
  \<open>s.count(sub)\<close>: the number of non-overlapping occurrences found by the same scan as
  \<open>replace\<close>; for the empty \<open>sub\<close> Python answers \<open>len(s) + 1\<close>. The source does not
  call it; it serves to say which occurrences \<open>replace\<close> removes.
\<close>

function str_count :: "string \<Rightarrow> string \<Rightarrow> nat" where
  "str_count sub s =
     (if sub = [] then length s + 1
      else case s of
        [] \<Rightarrow> 0
      | c # cs \<Rightarrow>
          if startswith sub s then 1 + str_count sub (drop (length sub) s)
          else str_count sub cs)"
  by pat_completeness auto
termination
  by (relation "measure (\<lambda>(sub, s). length s)") auto

declare str_count.simps [simp del]

subsection \<open>\<open>_has_system\<close> and \<open>_replace_system\<close>\<close>

text \<open>
  \<open>'{{SYSTEM}}' in p\<close>: a substring test when \<open>p\<close> is text, a membership test when \<open>p\<close> is
  a list (an integer never equals a string).
\<close>

fun system_in :: "Context \<Rightarrow> bool" where
  "system_in (Str s) = str_contains SYSTEM s"
| "system_in (Toks ts) = (TStr SYSTEM \<in> set ts)"

definition has_system :: "Prompt \<Rightarrow> bool" where
  "has_system prefix_or_prompt = list_ex system_in prefix_or_prompt"

text \<open>
  \<open>[p.replace('{{SYSTEM}}', '') for p in prefix]\<close>: a list has no \<open>replace\<close> method, so
  the comprehension raises \<open>AttributeError\<close> at the first element that is a token list.
\<close>

fun replace_system :: "Prompt \<Rightarrow> error + Prompt" where
  "replace_system [] = Inr []"
| "replace_system (Str s # ps) =
     (case replace_system ps of
        Inl e \<Rightarrow> Inl e
      | Inr r \<Rightarrow> Inr (Str (str_replace SYSTEM [] s) # r))"
| "replace_system (Toks ts # ps) = Inl AttributeError"

subsection \<open>\<open>check_system\<close> and \<open>__post_init__\<close>\<close>

text \<open>
  \<open>check_system\<close> reads \<open>self.support_system\<close>, passed here as the first argument. An
  absent system becomes the empty string; a non-empty one is asserted to be supported.
\<close>

definition check_system :: "bool \<Rightarrow> string option \<Rightarrow> error + string" where
  "check_system supp system =
     (let system = (case system of None \<Rightarrow> [] | Some s \<Rightarrow> s)
      in if system \<noteq> [] \<and> \<not> supp then Inl AssertionError else Inr system)"

text \<open>
  The first block of \<open>__post_init__\<close>: when the prefix embeds the placeholder,
  \<open>system_prefix\<close> must be unset; it takes the prefix, and the prefix is stripped.
  The result is the pair (system_prefix, prefix).
\<close>

definition move_system :: "fields \<Rightarrow> error + (Prompt option \<times> Prompt)" where
  "move_system f =
     (if has_system (prefix f) then
        (if system_prefix f \<noteq> None then Inl AssertionError
         else case replace_system (prefix f) of
                Inl e \<Rightarrow> Inl e
              | Inr p \<Rightarrow> Inr (Some (prefix f), p))
      else Inr (system_prefix f, prefix f))"

text \<open>
  Constructing a \<open>TemplateMeta\<close>: the dataclass stores the fields and runs
  \<open>__post_init__\<close>, whose assignments are made here in the source's order.
\<close>

definition post_init :: "fields \<Rightarrow> error + TemplateMeta" where
  "post_init f =
     (case move_system f of
        Inl e \<Rightarrow> Inl e
      | Inr (sys_prefix, pre) \<Rightarrow>
          let post = has_system (prompt f);
              prm = (if post then filter (\<lambda>c. \<not> system_in c) (prompt f) else prompt f);
              supp = (if sys_prefix = None \<and> \<not> post then False else True)
          in case check_system supp (default_system f) of
               Inl e \<Rightarrow> Inl e
             | Inr sys \<Rightarrow>
                 Inr \<lparr> template_type = template_type f,
                       prefix = pre,
                       prompt = prm,
                       chat_sep = chat_sep f,
                       suffix = suffix f,
                       template_cls = template_cls f,
                       tool_prompt = (if tool_prompt f = None then Some prm else tool_prompt f),
                       system_prefix = sys_prefix,
                       auto_add_bos = auto_add_bos f,
                       default_system = Some sys,
                       stop_words = stop_words f,
                       placeholder_tokens = placeholder_tokens f,
                       skip_prompt = skip_prompt f,
                       default_tools_prompt = default_tools_prompt f,
                       support_stream = support_stream f,
                       is_post_system = post,
                       system_prompt = (if post then Some prm else None),
                       support_system = supp,
                       support_multi_round = (chat_sep f \<noteq> None) \<rparr>)"

subsection \<open>Resolving token attributes (\<open>token_attr_to_id\<close>)\<close>

text \<open>
  The tokenizer, as far as resolution reads it: \<open>getattr(tokenizer, name)\<close> for a
  token-id attribute such as \<open>eos_token_id\<close>, whose value is an integer (the docstring
  of \<open>_token_attr_to_id\<close>: "Turn \<open>eos_token_id\<close> to token id"). \<open>None\<close> stands for a
  name the tokenizer does not have, where \<open>getattr\<close> raises \<open>AttributeError\<close>.
\<close>

type_synonym tokenizer = "string \<Rightarrow> int option"

text \<open>\<open>getattr(tokenizer, sub_v) if isinstance(sub_v, str) else sub_v\<close>.\<close>

fun getattr_tok :: "tokenizer \<Rightarrow> tok \<Rightarrow> error + tok" where
  "getattr_tok tokenizer (TStr sub_v) =
     (case tokenizer sub_v of None \<Rightarrow> Inl AttributeError | Some i \<Rightarrow> Inr (TInt i))"
| "getattr_tok tokenizer (TInt sub_v) = Inr (TInt sub_v)"

text \<open>The inner comprehension over a token list, left to right.\<close>

fun resolve_toks :: "tokenizer \<Rightarrow> tok list \<Rightarrow> error + tok list" where
  "resolve_toks tokenizer [] = Inr []"
| "resolve_toks tokenizer (sub_v # v) =
     (case getattr_tok tokenizer sub_v of
        Inl e \<Rightarrow> Inl e
      | Inr t \<Rightarrow> (case resolve_toks tokenizer v of Inl e \<Rightarrow> Inl e | Inr r \<Rightarrow> Inr (t # r)))"

text \<open>
  The loop of \<open>_token_attr_to_id\<close> over the elements of a prompt: a list element is
  rebuilt by the comprehension, anything else (text) is appended as it is.
\<close>

fun resolve_value :: "tokenizer \<Rightarrow> Prompt \<Rightarrow> error + Prompt" where
  "resolve_value tokenizer [] = Inr []"
| "resolve_value tokenizer (Str s # value) =
     (case resolve_value tokenizer value of Inl e \<Rightarrow> Inl e | Inr r \<Rightarrow> Inr (Str s # r))"
| "resolve_value tokenizer (Toks v # value) =
     (case resolve_toks tokenizer v of
        Inl e \<Rightarrow> Inl e
      | Inr v' \<Rightarrow>
          (case resolve_value tokenizer value of Inl e \<Rightarrow> Inl e | Inr r \<Rightarrow> Inr (Toks v' # r)))"

text \<open>The static method \<open>_token_attr_to_id\<close>: \<open>None\<close> stays \<open>None\<close>.\<close>

fun token_attr_to_id_static :: "tokenizer \<Rightarrow> Prompt option \<Rightarrow> error + Prompt option" where
  "token_attr_to_id_static tokenizer None = Inr None"
| "token_attr_to_id_static tokenizer (Some value) =
     (case resolve_value tokenizer value of Inl e \<Rightarrow> Inl e | Inr r \<Rightarrow> Inr (Some r))"

text \<open>
  The method \<open>token_attr_to_id\<close>: the keys \<open>prefix\<close>, \<open>prompt\<close>, \<open>chat_sep\<close>, \<open>suffix\<close> and
  \<open>system_prefix\<close> are read, resolved and written back, in that order. \<open>prefix\<close>,
  \<open>prompt\<close> and \<open>suffix\<close> are always lists, so the \<open>None\<close> test is dead for them. An
  exception leaves the keys before the failing one already rewritten; the model returns
  the error only.
\<close>

definition token_attr_to_id :: "tokenizer \<Rightarrow> TemplateMeta \<Rightarrow> error + TemplateMeta" where
  "token_attr_to_id tokenizer m =
     (case resolve_value tokenizer (prefix m) of Inl e \<Rightarrow> Inl e | Inr v1 \<Rightarrow>
      case resolve_value tokenizer (prompt m) of Inl e \<Rightarrow> Inl e | Inr v2 \<Rightarrow>
      case token_attr_to_id_static tokenizer (chat_sep m) of Inl e \<Rightarrow> Inl e | Inr v3 \<Rightarrow>
      case resolve_value tokenizer (suffix m) of Inl e \<Rightarrow> Inl e | Inr v4 \<Rightarrow>
      case token_attr_to_id_static tokenizer (system_prefix m) of Inl e \<Rightarrow> Inl e | Inr v5 \<Rightarrow>
        Inr (m \<lparr> prefix := v1, prompt := v2, chat_sep := v3, suffix := v4,
                 system_prefix := v5 \<rparr>))"


subsection \<open>\<open>to_generation_template_meta\<close>\<close>

text \<open>
  The generation variant is built by calling the constructor again, so \<open>__post_init__\<close>
  runs on the new fields. Arguments not passed take the dataclass defaults
  (\<open>tool_prompt\<close>, \<open>system_prefix\<close> and \<open>default_system\<close> are \<open>None\<close>,
  \<open>default_tools_prompt\<close> is \<open>react_en\<close>). \<open>deepcopy\<close> yields an equal value; which
  containers are shared is the subject of the store model below.
\<close>

definition to_generation_template_meta :: "TemplateMeta \<Rightarrow> error + TemplateMeta" where
  "to_generation_template_meta self =
     post_init \<lparr> template_type = template_type self,
                 prefix = [],
                 prompt = [Str ''{{QUERY}}''],
                 chat_sep = None,
                 suffix = [Toks [TStr ''eos_token_id'']],
                 template_cls = template_cls self,
                 tool_prompt = None,
                 system_prefix = None,
                 auto_add_bos = True,
                 default_system = None,
                 stop_words = stop_words self,
                 placeholder_tokens = placeholder_tokens self,
                 skip_prompt = skip_prompt self,
                 default_tools_prompt = ''react_en'',
                 support_stream = support_stream self \<rparr>"


section \<open>A store for the list objects\<close>

text \<open>
  Whether two objects share a list cannot be read off the values. For that question the
  lists live in a store: an address is the position of a list in the order of
  allocation, and allocating appends to the store. Two kinds of list occur: the lists
  that make a prompt (or the stop words), whose elements are text or references to
  token lists, and the token lists themselves (also the placeholder tokens), whose
  elements are integers and text. Text and integers are immutable and need no address.
  No function of this file changes a list in place, so the store only ever grows.
\<close>

type_synonym addr = nat

datatype cell = Text string | Ref addr

record store =
  lists :: "cell list list"
  toklists :: "tok list list"

type_synonym fields_ref = "(addr, addr) fields_of"

type_synonym TemplateMeta_ref = "(addr, addr) TemplateMeta_of"

definition get_list :: "store \<Rightarrow> addr \<Rightarrow> cell list" where
  "get_list st a = (if a < length (lists st) then lists st ! a else [])"

definition get_toks :: "store \<Rightarrow> addr \<Rightarrow> tok list" where
  "get_toks st a = (if a < length (toklists st) then toklists st ! a else [])"

definition new_list :: "store \<Rightarrow> cell list \<Rightarrow> store \<times> addr" where
  "new_list st cs = (st \<lparr> lists := lists st @ [cs] \<rparr>, length (lists st))"

definition new_toks :: "store \<Rightarrow> tok list \<Rightarrow> store \<times> addr" where
  "new_toks st ts = (st \<lparr> toklists := toklists st @ [ts] \<rparr>, length (toklists st))"

text \<open>The value an address stands for.\<close>

fun view_cell :: "store \<Rightarrow> cell \<Rightarrow> Context" where
  "view_cell st (Text s) = Str s"
| "view_cell st (Ref a) = Toks (get_toks st a)"

definition view_list :: "store \<Rightarrow> addr \<Rightarrow> Prompt" where
  "view_list st a = map (view_cell st) (get_list st a)"

definition view_fields :: "store \<Rightarrow> fields_ref \<Rightarrow> fields" where
  "view_fields st f =
     \<lparr> template_type = template_type f,
       prefix = view_list st (prefix f),
       prompt = view_list st (prompt f),
       chat_sep = map_option (view_list st) (chat_sep f),
       suffix = view_list st (suffix f),
       template_cls = template_cls f,
       tool_prompt = map_option (view_list st) (tool_prompt f),
       system_prefix = map_option (view_list st) (system_prefix f),
       auto_add_bos = auto_add_bos f,
       default_system = default_system f,
       stop_words = view_list st (stop_words f),
       placeholder_tokens = get_toks st (placeholder_tokens f),
       skip_prompt = skip_prompt f,
       default_tools_prompt = default_tools_prompt f,
       support_stream = support_stream f \<rparr>"

definition view_meta :: "store \<Rightarrow> TemplateMeta_ref \<Rightarrow> TemplateMeta" where
  "view_meta st m =
     \<lparr> template_type = template_type m,
       prefix = view_list st (prefix m),
       prompt = view_list st (prompt m),
       chat_sep = map_option (view_list st) (chat_sep m),
       suffix = view_list st (suffix m),
       template_cls = template_cls m,
       tool_prompt = map_option (view_list st) (tool_prompt m),
       system_prefix = map_option (view_list st) (system_prefix m),
       auto_add_bos = auto_add_bos m,
       default_system = default_system m,
       stop_words = view_list st (stop_words m),
       placeholder_tokens = get_toks st (placeholder_tokens m),
       skip_prompt = skip_prompt m,
       default_tools_prompt = default_tools_prompt m,
       support_stream = support_stream m,
       is_post_system = is_post_system m,
       system_prompt = map_option (view_list st) (system_prompt m),
       support_system = support_system m,
       support_multi_round = support_multi_round m \<rparr>"

text \<open>
  The list objects an object holds: the lists its attributes point to, and the token
  lists these refer to, together with the placeholder tokens.
\<close>

definition list_addrs :: "TemplateMeta_ref \<Rightarrow> addr list" where
  "list_addrs m =
     [prefix m, prompt m, suffix m, stop_words m]
     @ concat (map (\<lambda>x. case x of None \<Rightarrow> [] | Some a \<Rightarrow> [a])
         [chat_sep m, tool_prompt m, system_prefix m, system_prompt m])"

fun refs_of :: "cell list \<Rightarrow> addr list" where
  "refs_of [] = []"
| "refs_of (Text s # cs) = refs_of cs"
| "refs_of (Ref a # cs) = a # refs_of cs"

definition tok_addrs :: "store \<Rightarrow> TemplateMeta_ref \<Rightarrow> addr list" where
  "tok_addrs st m =
     placeholder_tokens m # concat (map (\<lambda>l. refs_of (get_list st l)) (list_addrs m))"

text \<open>Every list an object holds has been allocated (Python has no dangling reference).\<close>

definition wf_meta :: "store \<Rightarrow> TemplateMeta_ref \<Rightarrow> bool" where
  "wf_meta st m =
     (list_all (\<lambda>l. l < length (lists st)) (list_addrs m)
      \<and> list_all (\<lambda>a. a < length (toklists st)) (tok_addrs st m))"

subsection \<open>\<open>copy.deepcopy\<close>\<close>

text \<open>
  \<open>deepcopy\<close> of a list creates a new list and appends the deep copy of each element.
  Text and integers are returned as they are. A token list is copied into a new token
  list, once: the memo maps the address of a list already copied to its copy. The new
  outer list is created first and filled afterwards; since the token lists have
  addresses of their own, the model allocates it with its final content.
\<close>

fun deepcopy_cells ::
  "store \<Rightarrow> (addr \<times> addr) list \<Rightarrow> cell list \<Rightarrow> store \<times> (addr \<times> addr) list \<times> cell list" where
  "deepcopy_cells st memo [] = (st, memo, [])"
| "deepcopy_cells st memo (Text s # cs) =
     (case deepcopy_cells st memo cs of (st', memo', r) \<Rightarrow> (st', memo', Text s # r))"
| "deepcopy_cells st memo (Ref a # cs) =
     (case map_of memo a of
        Some b \<Rightarrow>
          (case deepcopy_cells st memo cs of (st', memo', r) \<Rightarrow> (st', memo', Ref b # r))
      | None \<Rightarrow>
          (case new_toks st (get_toks st a) of
             (st1, b) \<Rightarrow>
               (case deepcopy_cells st1 ((a, b) # memo) cs of
                  (st', memo', r) \<Rightarrow> (st', memo', Ref b # r))))"

definition deepcopy_list :: "store \<Rightarrow> addr \<Rightarrow> store \<times> addr" where
  "deepcopy_list st a =
     (case deepcopy_cells st [] (get_list st a) of (st', memo, r) \<Rightarrow> new_list st' r)"

definition deepcopy_toks :: "store \<Rightarrow> addr \<Rightarrow> store \<times> addr" where
  "deepcopy_toks st a = new_toks st (get_toks st a)"

subsection \<open>Construction over the store\<close>

text \<open>
  \<open>_replace_system\<close> builds a new list of new texts; \<open>replace\<close> on a token list raises.
\<close>

fun replace_cells :: "cell list \<Rightarrow> error + cell list" where
  "replace_cells [] = Inr []"
| "replace_cells (Text s # ps) =
     (case replace_cells ps of
        Inl e \<Rightarrow> Inl e
      | Inr r \<Rightarrow> Inr (Text (str_replace SYSTEM [] s) # r))"
| "replace_cells (Ref a # ps) = Inl AttributeError"

text \<open>
  \<open>__post_init__\<close> once more, now saying which list each attribute points to:
  \<open>system_prefix\<close> takes the prefix object itself, the stripped prefix and the filtered
  prompt are new lists (the filtered prompt keeps the token lists of the old one), and
  \<open>system_prompt\<close> and a defaulted \<open>tool_prompt\<close> point to the prompt object.
\<close>

definition move_system_st :: "store \<Rightarrow> fields_ref \<Rightarrow> error + (store \<times> addr option \<times> addr)" where
  "move_system_st st f =
     (if has_system (view_list st (prefix f)) then
        (if system_prefix f \<noteq> None then Inl AssertionError
         else case replace_cells (get_list st (prefix f)) of
                Inl e \<Rightarrow> Inl e
              | Inr p \<Rightarrow> (case new_list st p of (st', a) \<Rightarrow> Inr (st', Some (prefix f), a)))
      else Inr (st, system_prefix f, prefix f))"

definition post_init_st :: "store \<Rightarrow> fields_ref \<Rightarrow> error + (store \<times> TemplateMeta_ref)" where
  "post_init_st st f =
     (case move_system_st st f of
        Inl e \<Rightarrow> Inl e
      | Inr (st1, sys_prefix, pre) \<Rightarrow>
          let post = has_system (view_list st1 (prompt f));
              (st2, prm) =
                (if post
                 then new_list st1
                        (filter (\<lambda>c. \<not> system_in (view_cell st1 c)) (get_list st1 (prompt f)))
                 else (st1, prompt f));
              supp = (if sys_prefix = None \<and> \<not> post then False else True)
          in case check_system supp (default_system f) of
               Inl e \<Rightarrow> Inl e
             | Inr sys \<Rightarrow>
                 Inr (st2,
                      \<lparr> template_type = template_type f,
                        prefix = pre,
                        prompt = prm,
                        chat_sep = chat_sep f,
                        suffix = suffix f,
                        template_cls = template_cls f,
                        tool_prompt = (if tool_prompt f = None then Some prm else tool_prompt f),
                        system_prefix = sys_prefix,
                        auto_add_bos = auto_add_bos f,
                        default_system = Some sys,
                        stop_words = stop_words f,
                        placeholder_tokens = placeholder_tokens f,
                        skip_prompt = skip_prompt f,
                        default_tools_prompt = default_tools_prompt f,
                        support_stream = support_stream f,
                        is_post_system = post,
                        system_prompt = (if post then Some prm else None),
                        support_system = supp,
                        support_multi_round = (chat_sep f \<noteq> None) \<rparr>))"

text \<open>
  \<open>to_generation_template_meta\<close>: the arguments are evaluated from left to right (the
  three list displays allocate, \<open>[['eos_token_id']]\<close> its token list first; then the two
  deep copies), and the constructor runs on them.
\<close>

definition to_generation_template_meta_st ::
  "store \<Rightarrow> TemplateMeta_ref \<Rightarrow> error + (store \<times> TemplateMeta_ref)" where
  "to_generation_template_meta_st st self =
     (case new_list st [] of (st1, a_prefix) \<Rightarrow>
      case new_list st1 [Text ''{{QUERY}}''] of (st2, a_prompt) \<Rightarrow>
      case new_toks st2 [TStr ''eos_token_id''] of (st3, t_eos) \<Rightarrow>
      case new_list st3 [Ref t_eos] of (st4, a_suffix) \<Rightarrow>
      case deepcopy_list st4 (stop_words self) of (st5, a_stop_words) \<Rightarrow>
      case deepcopy_toks st5 (placeholder_tokens self) of (st6, a_placeholder_tokens) \<Rightarrow>
        post_init_st st6
          \<lparr> template_type = template_type self,
            prefix = a_prefix,
            prompt = a_prompt,
            chat_sep = None,
            suffix = a_suffix,
            template_cls = template_cls self,
            tool_prompt = None,
            system_prefix = None,
            auto_add_bos = True,
            default_system = None,
            stop_words = a_stop_words,
            placeholder_tokens = a_placeholder_tokens,
            skip_prompt = skip_prompt self,
            default_tools_prompt = ''react_en'',
            support_stream = support_stream self \<rparr>)"

text \<open>
  \<open>grows st st'\<close>: every list of \<open>st\<close> is still in \<open>st'\<close>, at the same address and with the
  same content.
\<close>

definition grows :: "store \<Rightarrow> store \<Rightarrow> bool" where
  "grows st st' =
     (take (length (lists st)) (lists st') = lists st
      \<and> take (length (toklists st)) (toklists st') = toklists st)"

text \<open>
  What holds of the memo while a list whose token lists lie below \<open>n0\<close> is copied: it
  maps addresses below \<open>n0\<close> to addresses allocated since, holding the same tokens.
\<close>

definition memo_ok :: "nat \<Rightarrow> store \<Rightarrow> (addr \<times> addr) list \<Rightarrow> bool" where
  "memo_ok n0 st memo =
     (\<forall>a b. (a, b) \<in> set memo \<longrightarrow>
        n0 \<le> b \<and> b < length (toklists st) \<and> a < n0 \<and> get_toks st b = get_toks st a)"

text \<open>The lists named by constructor arguments have been allocated.\<close>

definition wf_fields :: "store \<Rightarrow> fields_ref \<Rightarrow> bool" where
  "wf_fields st f =
     list_all (\<lambda>l. l < length (lists st))
       ([prefix f, prompt f, suffix f, stop_words f]
        @ concat (map (\<lambda>x. case x of None \<Rightarrow> [] | Some a \<Rightarrow> [a])
            [chat_sep f, tool_prompt f, system_prefix f]))"


subsection \<open>The registry (\<open>register_template\<close>)\<close>

text \<open>
  \<open>TEMPLATE_MAPPING\<close> maps a template type to the dictionary
  \<open>{'template_meta': template_meta, **kwargs}\<close>. \<open>template_meta\<close> is the name of the
  function's positional parameter, so Python rejects a call that passes it as a keyword
  too: \<open>kwargs\<close> never has that key, and the dictionary is the pair of the object and the
  extra keywords (in the order given).
\<close>

record 'v template_info =
  template_meta :: TemplateMeta
  kwargs :: "(string \<times> 'v) list"

type_synonym 'v TEMPLATE_MAPPING = "string \<rightharpoonup> 'v template_info"

text \<open>
  The global dictionary is passed in and returned. On the error path the function
  raises before the assignment, so the dictionary returned is the one passed in.
\<close>

definition register_template ::
  "TemplateMeta \<Rightarrow> bool \<Rightarrow> (string \<times> 'v) list \<Rightarrow> 'v TEMPLATE_MAPPING
     \<Rightarrow> (error + unit) \<times> 'v TEMPLATE_MAPPING" where
  "register_template tm exist_ok kw M =
     (if \<not> exist_ok \<and> M (template_type tm) \<noteq> None then (Inl ValueError, M)
      else (Inr (), M(template_type tm \<mapsto> \<lparr> template_meta = tm, kwargs = kw \<rparr>)))"

section \<open>The mean metric (swift/plugin/metric.py)\<close>














section \<open>Resolution, as the specification words it\<close>

text \<open>
  The specification describes resolution element by element: an element that names a
  symbolic token is replaced by the id the vocabulary gives it; literal text and
  integers pass through unchanged. \<open>tok_resolved\<close> and \<open>resolved\<close> say when a token and an
  element of a prompt are the resolved form of another.
\<close>

fun tok_resolved :: "tokenizer \<Rightarrow> tok \<Rightarrow> tok \<Rightarrow> bool" where
  "tok_resolved tokenizer (TInt i) t = (t = TInt i)"
| "tok_resolved tokenizer (TStr name) t =
     (case tokenizer name of None \<Rightarrow> False | Some i \<Rightarrow> t = TInt i)"

fun resolved :: "tokenizer \<Rightarrow> Context \<Rightarrow> Context \<Rightarrow> bool" where
  "resolved tokenizer (Str s) c = (c = Str s)"
| "resolved tokenizer (Toks ts) (Toks ts') = list_all2 (tok_resolved tokenizer) ts ts'"
| "resolved tokenizer (Toks ts) (Str s) = False"


section \<open>Example inputs\<close>

text \<open>
  The chatml layout of the class docstring: the system turn has its own
  \<open>system_prefix\<close>, the prefix and the prompt carry no system placeholder.
\<close>

definition chatml :: fields where
  "chatml = \<lparr> template_type = ''chatml'', prefix = [Str ''<s>''],
     prompt = [Str ''<|im_start|>user {{QUERY}}<|im_end|><|im_start|>assistant''],
     chat_sep = Some [Str ''<|im_end|>''], suffix = [Str ''<|im_end|>''],
     template_cls = ''Template'', tool_prompt = None,
     system_prefix = Some [Str ''<s><|im_start|>system {{SYSTEM}}<|im_end|>''],
     auto_add_bos = False, default_system = None, stop_words = [], placeholder_tokens = [],
     skip_prompt = True, default_tools_prompt = ''react_en'', support_stream = True \<rparr>"

text \<open>A layout with the placeholder in the prefix and again in the prompt.\<close>

definition doubly_declared :: fields where
  "doubly_declared = chatml \<lparr> prefix := [Str ''<s>{{SYSTEM}}''],
     prompt := [Str ''{{SYSTEM}}'', Str ''{{QUERY}}''], system_prefix := None \<rparr>"

text \<open>A layout with no place for a system message at all.\<close>

definition no_system :: fields where
  "no_system = chatml \<lparr> system_prefix := None \<rparr>"

text \<open>
  A layout whose prefix, prompt and suffix name tokenizer attributes, and a tokenizer
  that has a beginning-of-sequence id 1 and an end-of-sequence id 2.
\<close>

definition bos_template :: fields where
  "bos_template = chatml \<lparr> prefix := [Toks [TStr ''bos_token_id'']],
     prompt := [Toks [TStr ''bos_token_id''], Str ''{{QUERY}}''],
     suffix := [Toks [TStr ''eos_token_id'']], system_prefix := None \<rparr>"

definition bos_eos_tokenizer :: tokenizer where
  "bos_eos_tokenizer name =
     (if name = ''bos_token_id'' then Some 1
      else if name = ''eos_token_id'' then Some 2 else None)"

text \<open>A prefix in which stripping the placeholder once leaves a placeholder behind.\<close>

definition nested_placeholder :: fields where
  "nested_placeholder = chatml \<lparr> prefix := [Str ''{{SYS{{SYSTEM}}TEM}}''],
     system_prefix := None \<rparr>"

text \<open>The llama-style layout: the placeholder is embedded in the prefix.\<close>

definition embedded :: fields where
  "embedded = chatml \<lparr> prefix := [Str ''<s>[INST] <<SYS>>{{SYSTEM}}<</SYS>>''],
     system_prefix := None \<rparr>"

text \<open>
  A store holding the lists of a constructed object with two stop words, one of them a
  token list, and the object.
\<close>

definition example_store :: store where
  "example_store =
     \<lparr> lists = [[Text ''<s>''], [Text ''{{QUERY}}''], [Text ''<sep>''], [Text ''</s>''],
                [Text ''<|im_end|>'', Ref 0, Ref 0]],
       toklists = [[TInt 2], [TInt 7, TInt 9]] \<rparr>"

definition example_meta :: TemplateMeta_ref where
  "example_meta =
     \<lparr> template_type = ''example'', prefix = 0, prompt = 1, chat_sep = Some 2, suffix = 3,
       template_cls = ''Template'', tool_prompt = Some 1, system_prefix = None,
       auto_add_bos = False, default_system = Some [], stop_words = 4,
       placeholder_tokens = 1, skip_prompt = True, default_tools_prompt = ''toolbench'',
       support_stream = False, is_post_system = False, system_prompt = None,
       support_system = False, support_multi_round = True \<rparr>"

text \<open>
  Constructor arguments, as addresses into a store, for a layout with the placeholder in
  the prefix and in the prompt.
\<close>

definition argument_store :: store where
  "argument_store =
     \<lparr> lists = [[Text ''<s>{{SYSTEM}}''], [Text ''{{SYSTEM}}'', Ref 0, Text ''{{QUERY}}''],
                [Text ''</s>''], []],
       toklists = [[TStr ''bos_token_id''], []] \<rparr>"

definition argument_fields :: fields_ref where
  "argument_fields =
     \<lparr> template_type = ''example'', prefix = 0, prompt = 1, chat_sep = None, suffix = 2,
       template_cls = ''Template'', tool_prompt = None, system_prefix = None,
       auto_add_bos = False, default_system = Some ''Be brief.'', stop_words = 3,
       placeholder_tokens = 1, skip_prompt = True, default_tools_prompt = ''react_en'',
       support_stream = True \<rparr>"

text \<open>A layout with its own \<open>system_prefix\<close> and the placeholder in the prompt as well.\<close>

definition prefix_and_post :: fields where
  "prefix_and_post = chatml \<lparr> prompt := [Str ''{{SYSTEM}}'', Str ''{{QUERY}}''] \<rparr>"

section \<open>Properties of construction\<close>

lemmas eval_defs = post_init_def move_system_def check_system_def has_system_def
  startswith_def SYSTEM_def Let_def

lemma conflict_fails:
  "has_system (prefix f) \<Longrightarrow> system_prefix f \<noteq> None \<Longrightarrow> post_init f = Inl AssertionError"
  by (simp add: post_init_def move_system_def)

lemma prompt_placeholder_accepted:
  assumes "has_system (prompt f)" "\<not> has_system (prefix f)"
  shows "\<not> isl (post_init f)"
  using assms by (simp add: post_init_def move_system_def check_system_def Let_def)

lemma prompt_and_prefix_placeholder_accepted:
  assumes "has_system (prompt f)" "has_system (prefix f)" "system_prefix f = None"
    and "\<not> isl (replace_system (prefix f))"
  shows "\<not> isl (post_init f)"
proof -
  from assms(4) obtain p where "replace_system (prefix f) = Inr p"
    by (cases "replace_system (prefix f)") auto
  with assms(1-3) show ?thesis
    by (simp add: post_init_def move_system_def check_system_def Let_def)
qed

text \<open>
  Claim C1 (as amended). Construction fails, with the assertion error of
  \<open>__post_init__\<close>, whenever \<open>system_prefix\<close> is set while the prefix embeds the system
  placeholder. That assertion is the only exclusivity check: a placeholder in the prompt
  is accepted together with a set \<open>system_prefix\<close> (the prefix having none), and together
  with one in the prefix (when \<open>system_prefix\<close> is unset and the prefix is all text, so
  that stripping it does not raise).
\<close>

theorem post_init_system_prefix_conflict:
  "(has_system (prefix f1) \<and> system_prefix f1 \<noteq> None \<longrightarrow> post_init f1 = Inl AssertionError)
   \<and> (has_system (prompt f2) \<and> \<not> has_system (prefix f2) \<longrightarrow> \<not> isl (post_init f2))
   \<and> (has_system (prompt f3) \<and> has_system (prefix f3) \<and> system_prefix f3 = None
        \<and> \<not> isl (replace_system (prefix f3)) \<longrightarrow> \<not> isl (post_init f3))"
  using conflict_fails [of f1] prompt_placeholder_accepted [of f2]
    prompt_and_prefix_placeholder_accepted [of f3]
  by blast

theorem post_init_system_prefix_conflict_witness:
  "post_init (chatml \<lparr> prefix := [Str ''<s>{{SYSTEM}}''] \<rparr>) = Inl AssertionError
   \<and> system_prefix prefix_and_post \<noteq> None
   \<and> \<not> isl (post_init prefix_and_post)
   \<and> \<not> isl (post_init doubly_declared)"
proof -
  have h1: "has_system (prefix (chatml \<lparr> prefix := [Str ''<s>{{SYSTEM}}''] \<rparr>))"
    by (simp add: chatml_def has_system_def startswith_def SYSTEM_def)
  have h2: "system_prefix (chatml \<lparr> prefix := [Str ''<s>{{SYSTEM}}''] \<rparr>) \<noteq> None"
    by (simp add: chatml_def)
  have g: "has_system (prompt prefix_and_post)" "\<not> has_system (prefix prefix_and_post)"
    "system_prefix prefix_and_post \<noteq> None"
    by (simp_all add: prefix_and_post_def chatml_def has_system_def startswith_def SYSTEM_def)
  have d: "has_system (prompt doubly_declared)" "has_system (prefix doubly_declared)"
    "system_prefix doubly_declared = None"
    by (simp_all add: doubly_declared_def chatml_def has_system_def startswith_def SYSTEM_def)
  have r: "\<not> isl (replace_system (prefix doubly_declared))"
    by (simp add: doubly_declared_def chatml_def)
  note t = post_init_system_prefix_conflict
    [of "chatml \<lparr> prefix := [Str ''<s>{{SYSTEM}}''] \<rparr>" prefix_and_post doubly_declared]
  from t h1 h2
  have a: "post_init (chatml \<lparr> prefix := [Str ''<s>{{SYSTEM}}''] \<rparr>) = Inl AssertionError"
    by blast
  from t g have b: "\<not> isl (post_init prefix_and_post)" by blast
  from t d r have c: "\<not> isl (post_init doubly_declared)" by blast
  from a b c g(3) show ?thesis by blast
qed

text \<open>
  Claim C1 as stated fails: with the placeholder both in the prefix and in the prompt
  (and \<open>system_prefix\<close> unset) construction succeeds.
\<close>

theorem post_init_accepts_prefix_and_prompt_placeholder:
  "has_system (prefix doubly_declared) \<and> has_system (prompt doubly_declared)
   \<and> \<not> isl (post_init doubly_declared)"
  by (simp add: doubly_declared_def chatml_def eval_defs)



text \<open>
  Claim C7. When no \<open>tool_prompt\<close> is given, the constructed object's \<open>tool_prompt\<close> is
  its \<open>prompt\<close> (the prompt as it stands after construction).
\<close>

theorem post_init_tool_prompt_default:
  "post_init f = Inr m \<Longrightarrow> tool_prompt f = None \<Longrightarrow> tool_prompt m = Some (prompt m)"
  by (auto simp: post_init_def Let_def split: sum.splits if_splits prod.splits)

theorem post_init_tool_prompt_default_witness:
  "tool_prompt (projr (post_init doubly_declared)) = Some [Str ''{{QUERY}}'']
   \<and> prompt (projr (post_init doubly_declared)) = [Str ''{{QUERY}}'']"
proof -
  have h1: "post_init doubly_declared = Inr (projr (post_init doubly_declared))"
    by (simp add: doubly_declared_def chatml_def eval_defs)
  have h2: "tool_prompt doubly_declared = None"
    by (simp add: doubly_declared_def chatml_def)
  have h3: "prompt (projr (post_init doubly_declared)) = [Str ''{{QUERY}}'']"
    by (simp add: doubly_declared_def chatml_def eval_defs)
  show ?thesis
    using post_init_tool_prompt_default [OF h1 h2] h3 by simp
qed

text \<open>What a successful construction says about \<open>default_system\<close>.\<close>

lemma check_system_Inr:
  "check_system supp d = Inr sys \<Longrightarrow>
     sys = (case d of None \<Rightarrow> [] | Some s \<Rightarrow> s) \<and> (sys \<noteq> [] \<longrightarrow> supp)"
  by (auto simp: check_system_def Let_def split: if_splits)

lemma post_init_Inr_default_system:
  assumes "post_init f = Inr m"
  shows "\<exists>sys. default_system m = Some sys
           \<and> check_system (support_system m) (default_system f) = Inr sys"
  using assms
  by (auto simp: post_init_def Let_def split: sum.splits prod.splits)

lemma default_system_None_normalised: "post_init f1 = Inr m1 \<Longrightarrow> default_system f1 = None \<Longrightarrow> default_system m1 = Some []"
  by (auto dest!: post_init_Inr_default_system check_system_Inr)

lemma unsupported_default_system_fails: "system_prefix f2 = None \<Longrightarrow> \<not> has_system (prefix f2) \<Longrightarrow> \<not> has_system (prompt f2)
        \<Longrightarrow> default_system f2 = Some s \<Longrightarrow> s \<noteq> [] \<Longrightarrow> post_init f2 = Inl AssertionError"
  by (simp add: post_init_def move_system_def check_system_def)

lemma default_system_supported: "post_init f3 = Inr m3 \<Longrightarrow>
        (\<exists>t. default_system m3 = Some t \<and> (t \<noteq> [] \<longrightarrow> support_system m3))"
  by (auto dest!: post_init_Inr_default_system check_system_Inr)

text \<open>
  Claim C8. (1) A \<open>default_system\<close> of \<open>None\<close> is stored as the empty string.
  (2) With a non-empty \<open>default_system\<close> and no support for a system message (no
  \<open>system_prefix\<close>, no placeholder in the prefix or the prompt) construction fails on the
  assertion of \<open>check_system\<close>. (3) Hence a constructed object with a non-empty
  \<open>default_system\<close> supports a system message.
\<close>

theorem post_init_default_system:
  "(post_init f1 = Inr m1 \<longrightarrow> default_system f1 = None \<longrightarrow> default_system m1 = Some [])
   \<and> (system_prefix f2 = None \<and> \<not> has_system (prefix f2) \<and> \<not> has_system (prompt f2)
        \<and> default_system f2 = Some s \<and> s \<noteq> [] \<longrightarrow> post_init f2 = Inl AssertionError)
   \<and> (post_init f3 = Inr m3 \<longrightarrow>
        (\<exists>t. default_system m3 = Some t \<and> (t \<noteq> [] \<longrightarrow> support_system m3)))"
  using default_system_None_normalised [of f1 m1] unsupported_default_system_fails [of f2 s] default_system_supported [of f3 m3] by blast

theorem post_init_default_system_witness:
  "default_system (projr (post_init chatml)) = Some []
   \<and> post_init (no_system \<lparr> default_system := Some ''You are helpful.'' \<rparr>)
       = Inl AssertionError
   \<and> default_system (projr (post_init (chatml \<lparr> default_system := Some ''Hi'' \<rparr>)))
       = Some ''Hi''
   \<and> support_system (projr (post_init (chatml \<lparr> default_system := Some ''Hi'' \<rparr>)))"
proof -
  have h1: "post_init chatml = Inr (projr (post_init chatml))"
    by (simp add: chatml_def eval_defs)
  have h3: "post_init (chatml \<lparr> default_system := Some ''Hi'' \<rparr>)
            = Inr (projr (post_init (chatml \<lparr> default_system := Some ''Hi'' \<rparr>)))"
    by (simp add: chatml_def eval_defs)
  have d3: "default_system (projr (post_init (chatml \<lparr> default_system := Some ''Hi'' \<rparr>)))
            = Some ''Hi''"
    by (simp add: chatml_def eval_defs)
  have f2: "system_prefix (no_system \<lparr> default_system := Some ''You are helpful.'' \<rparr>) = None"
    "\<not> has_system (prefix (no_system \<lparr> default_system := Some ''You are helpful.'' \<rparr>))"
    "\<not> has_system (prompt (no_system \<lparr> default_system := Some ''You are helpful.'' \<rparr>))"
    "default_system (no_system \<lparr> default_system := Some ''You are helpful.'' \<rparr>)
       = Some ''You are helpful.''"
    by (simp_all add: no_system_def chatml_def has_system_def startswith_def SYSTEM_def)
  have f1: "default_system chatml = None"
    by (simp add: chatml_def)
  have f3: "''You are helpful.'' \<noteq> []"
    by simp
  note t = post_init_default_system
      [of chatml "projr (post_init chatml)"
          "no_system \<lparr> default_system := Some ''You are helpful.'' \<rparr>" "''You are helpful.''"
          "chatml \<lparr> default_system := Some ''Hi'' \<rparr>"
          "projr (post_init (chatml \<lparr> default_system := Some ''Hi'' \<rparr>))"]
  from t h1 f1 have a: "default_system (projr (post_init chatml)) = Some []"
    by blast
  from t f2 f3
  have b: "post_init (no_system \<lparr> default_system := Some ''You are helpful.'' \<rparr>)
           = Inl AssertionError"
    by blast
  have f4: "''Hi'' \<noteq> []"
    by simp
  from t h3 have "\<exists>u. default_system (projr (post_init (chatml \<lparr> default_system := Some ''Hi'' \<rparr>)))
                     = Some u
                   \<and> (u \<noteq> [] \<longrightarrow>
                       support_system (projr (post_init (chatml \<lparr> default_system := Some ''Hi'' \<rparr>))))"
    by blast
  with d3 f4
  have c: "support_system (projr (post_init (chatml \<lparr> default_system := Some ''Hi'' \<rparr>)))"
    by (metis option.inject)
  from a b c d3 show ?thesis by blast
qed



section \<open>Properties of token resolution\<close>




lemma token_attr_to_id_Inr:
  "token_attr_to_id tk m = Inr m' \<Longrightarrow>
    \<exists>v1 v2 v3 v4 v5. resolve_value tk (prefix m) = Inr v1 \<and> resolve_value tk (prompt m) = Inr v2
      \<and> token_attr_to_id_static tk (chat_sep m) = Inr v3 \<and> resolve_value tk (suffix m) = Inr v4
      \<and> token_attr_to_id_static tk (system_prefix m) = Inr v5
      \<and> m' = m \<lparr> prefix := v1, prompt := v2, chat_sep := v3, suffix := v4, system_prefix := v5 \<rparr>"
  unfolding token_attr_to_id_def by (simp split: sum.splits)





text \<open>
  Claim C2. The claim lists \<open>tool_prompt\<close> among the fields resolved, but the method
  loops over five keys only. Evaluated on a layout whose prompt names
  \<open>bos_token_id\<close> and which leaves \<open>tool_prompt\<close> to its default: construction makes
  \<open>tool_prompt\<close> the prompt, resolution replaces the name in \<open>prompt\<close> by the id 1, and
  \<open>tool_prompt\<close> still holds the name.
\<close>

theorem token_attr_to_id_skips_tool_prompt:
  "tool_prompt (projr (post_init bos_template)) = Some (prompt (projr (post_init bos_template)))
   \<and> \<not> isl (token_attr_to_id bos_eos_tokenizer (projr (post_init bos_template)))
   \<and> prompt (projr (token_attr_to_id bos_eos_tokenizer (projr (post_init bos_template))))
       = [Toks [TInt 1], Str ''{{QUERY}}'']
   \<and> tool_prompt (projr (token_attr_to_id bos_eos_tokenizer (projr (post_init bos_template))))
       = Some [Toks [TStr ''bos_token_id''], Str ''{{QUERY}}'']"
  by (simp add: bos_template_def chatml_def eval_defs token_attr_to_id_def
        bos_eos_tokenizer_def)


text \<open>
  What resolution does do: after a successful \<open>token_attr_to_id\<close> the five keys it loops
  over hold, element by element, the resolved form of what they held (a name replaced
  by its id, text and integers as they were), and every other attribute, \<open>tool_prompt\<close>
  among them, is as before.
\<close>

lemma resolve_toks_resolved:
  "resolve_toks tk ts = Inr ts' \<Longrightarrow> list_all2 (tok_resolved tk) ts ts'"
proof (induction ts arbitrary: ts')
  case Nil
  then show ?case by simp
next
  case (Cons t ts)
  then show ?case
    by (cases t) (auto split: sum.splits option.splits)
qed

lemma resolve_value_resolved:
  "resolve_value tk v = Inr v' \<Longrightarrow> list_all2 (resolved tk) v v'"
proof (induction tk v arbitrary: v' rule: resolve_value.induct)
  case (1 tk)
  then show ?case by simp
next
  case (2 tk s v)
  then show ?case by (auto split: sum.splits)
next
  case (3 tk ts v)
  then show ?case by (auto split: sum.splits dest: resolve_toks_resolved)
qed

lemma static_resolved:
  "token_attr_to_id_static tk v = Inr v' \<Longrightarrow> rel_option (list_all2 (resolved tk)) v v'"
  by (cases v) (auto split: sum.splits dest: resolve_value_resolved)

theorem token_attr_to_id_resolves_five_keys:
  "token_attr_to_id tk m = Inr m' \<Longrightarrow>
     list_all2 (resolved tk) (prefix m) (prefix m')
   \<and> list_all2 (resolved tk) (prompt m) (prompt m')
   \<and> rel_option (list_all2 (resolved tk)) (chat_sep m) (chat_sep m')
   \<and> list_all2 (resolved tk) (suffix m) (suffix m')
   \<and> rel_option (list_all2 (resolved tk)) (system_prefix m) (system_prefix m')
   \<and> tool_prompt m' = tool_prompt m
   \<and> m' = m \<lparr> prefix := prefix m', prompt := prompt m', chat_sep := chat_sep m',
              suffix := suffix m', system_prefix := system_prefix m' \<rparr>"
proof -
  assume a: "token_attr_to_id tk m = Inr m'"
  from token_attr_to_id_Inr [OF a] obtain v1 v2 v3 v4 v5 where
    r: "resolve_value tk (prefix m) = Inr v1" "resolve_value tk (prompt m) = Inr v2"
       "token_attr_to_id_static tk (chat_sep m) = Inr v3" "resolve_value tk (suffix m) = Inr v4"
       "token_attr_to_id_static tk (system_prefix m) = Inr v5"
    and m': "m' = m \<lparr> prefix := v1, prompt := v2, chat_sep := v3, suffix := v4,
                     system_prefix := v5 \<rparr>"
    by blast
  from r show ?thesis
    by (simp add: m' resolve_value_resolved static_resolved)
qed

theorem token_attr_to_id_resolves_five_keys_witness:
  "list_all2 (resolved bos_eos_tokenizer) [Toks [TStr ''bos_token_id''], Str ''{{QUERY}}'']
     (prompt (projr (token_attr_to_id bos_eos_tokenizer (projr (post_init bos_template)))))
   \<and> tool_prompt (projr (token_attr_to_id bos_eos_tokenizer (projr (post_init bos_template))))
     = Some [Toks [TStr ''bos_token_id''], Str ''{{QUERY}}'']"
proof -
  have h: "token_attr_to_id bos_eos_tokenizer (projr (post_init bos_template))
           = Inr (projr (token_attr_to_id bos_eos_tokenizer (projr (post_init bos_template))))"
    by (simp add: bos_template_def chatml_def eval_defs token_attr_to_id_def
        bos_eos_tokenizer_def)
  have p: "prompt (projr (post_init bos_template)) = [Toks [TStr ''bos_token_id''], Str ''{{QUERY}}'']"
    "tool_prompt (projr (post_init bos_template))
       = Some [Toks [TStr ''bos_token_id''], Str ''{{QUERY}}'']"
    by (simp_all add: bos_template_def chatml_def eval_defs)
  from token_attr_to_id_resolves_five_keys [OF h] p show ?thesis by metis
qed


section \<open>Stripping the placeholder\<close>

text \<open>The scan of \<open>replace\<close> and \<open>count\<close>, one step at a time.\<close>

lemma str_replace_Nil: "old \<noteq> [] \<Longrightarrow> str_replace old new [] = []"
  by (subst str_replace.simps) simp

lemma str_replace_hit:
  "old \<noteq> [] \<Longrightarrow> startswith old (c # cs) \<Longrightarrow>
   str_replace old new (c # cs) = new @ str_replace old new (drop (length old) (c # cs))"
  by (subst str_replace.simps) simp

lemma str_replace_miss:
  "old \<noteq> [] \<Longrightarrow> \<not> startswith old (c # cs) \<Longrightarrow>
   str_replace old new (c # cs) = c # str_replace old new cs"
  by (subst str_replace.simps) simp

lemma str_count_Nil: "sub \<noteq> [] \<Longrightarrow> str_count sub [] = 0"
  by (subst str_count.simps) simp

lemma str_count_hit:
  "sub \<noteq> [] \<Longrightarrow> startswith sub (c # cs) \<Longrightarrow>
   str_count sub (c # cs) = 1 + str_count sub (drop (length sub) (c # cs))"
  by (subst str_count.simps) simp

lemma str_count_miss:
  "sub \<noteq> [] \<Longrightarrow> \<not> startswith sub (c # cs) \<Longrightarrow> str_count sub (c # cs) = str_count sub cs"
  by (subst str_count.simps) simp

lemma count_list_app: "count_list (xs @ ys) c = count_list xs c + count_list ys c"
  by (induction xs) auto

lemma startswith_split: "startswith old s \<Longrightarrow> s = old @ drop (length old) s"
  by (metis append_take_drop_id startswith_def)

lemma count_replace:
  assumes "old \<noteq> []"
  shows "count_list (str_replace old [] s) c + str_count old s * count_list old c
         = count_list s c"
proof (induction s rule: length_induct)
  case (1 s)
  show ?case
  proof (cases s)
    case Nil
    with assms show ?thesis by (simp add: str_replace_Nil str_count_Nil)
  next
    case (Cons a cs)
    show ?thesis
    proof (cases "startswith old (a # cs)")
      case True
      let ?r = "drop (length old) (a # cs)"
      have "length ?r < length s" using assms Cons by simp
      with 1 have ih: "count_list (str_replace old [] ?r) c + str_count old ?r * count_list old c
                       = count_list ?r c"
        by blast
      have "count_list (a # cs) c = count_list (old @ ?r) c"
        using startswith_split [OF True] by simp
      then have sp: "count_list (a # cs) c = count_list old c + count_list ?r c"
        by (simp only: count_list_app)
      have r: "str_replace old [] (a # cs) = str_replace old [] ?r"
        using str_replace_hit [OF assms True, of "[]"] by simp
      have k: "str_count old (a # cs) = 1 + str_count old ?r"
        by (rule str_count_hit [OF assms True])
      show ?thesis
        unfolding Cons r k sp using ih by simp
    next
      case False
      have "length cs < length s" using Cons by simp
      with 1 have ih: "count_list (str_replace old [] cs) c + str_count old cs * count_list old c
                       = count_list cs c"
        by blast
      have r: "str_replace old [] (a # cs) = a # str_replace old [] cs"
        by (rule str_replace_miss [OF assms False])
      have k: "str_count old (a # cs) = str_count old cs"
        by (rule str_count_miss [OF assms False])
      show ?thesis
        unfolding Cons r k using ih by simp
    qed
  qed
qed

lemma str_contains_hd: "str_contains pat s \<Longrightarrow> pat \<noteq> [] \<Longrightarrow> hd pat \<in> set s"
proof (induction s)
  case Nil
  then show ?case by simp
next
  case (Cons a s)
  show ?case
  proof (cases "startswith pat (a # s)")
    case True
    then have "take (length pat) (a # s) = pat" by (simp add: startswith_def)
    with Cons.prems(2) have "hd pat = a" by (cases pat) auto
    then show ?thesis by simp
  next
    case False
    with Cons.IH Cons.prems show ?thesis by simp
  qed
qed

text \<open>
  When the only opening braces of a text are those of the placeholder occurrences that
  one scan finds (two for each), the stripped text has no opening brace left, hence no
  placeholder.
\<close>

lemma brace_clean_replace:
  assumes "count_list s CHR ''{'' = 2 * str_count SYSTEM s"
  shows "\<not> str_contains SYSTEM (str_replace SYSTEM [] s)"
proof
  assume c: "str_contains SYSTEM (str_replace SYSTEM [] s)"
  have ne: "SYSTEM \<noteq> []" by (simp add: SYSTEM_def)
  have two: "count_list SYSTEM CHR ''{'' = 2" by (simp add: SYSTEM_def)
  from count_replace [OF ne, of s "CHR ''{''"] assms two
  have "count_list (str_replace SYSTEM [] s) CHR ''{'' = 0" by simp
  then have "CHR ''{'' \<notin> set (str_replace SYSTEM [] s)"
    by (simp add: count_list_0_iff)
  moreover have "hd SYSTEM = CHR ''{''" by (simp add: SYSTEM_def)
  ultimately show False using str_contains_hd [OF c ne] by simp
qed

lemma replace_system_clean:
  "replace_system p = Inr r \<Longrightarrow>
   (\<forall>s. Str s \<in> set p \<longrightarrow> count_list s CHR ''{'' = 2 * str_count SYSTEM s) \<Longrightarrow>
   \<not> has_system r"
proof (induction p arbitrary: r rule: replace_system.induct)
  case 1
  then show ?case by (simp add: has_system_def)
next
  case (2 s ps)
  from 2(2) obtain r' where r': "replace_system ps = Inr r'"
    and r: "r = Str (str_replace SYSTEM [] s) # r'"
    by (auto split: sum.splits)
  from 2(3) have "\<not> str_contains SYSTEM (str_replace SYSTEM [] s)"
    by (simp add: brace_clean_replace)
  moreover from 2(1) [OF r'] 2(3) have "\<not> has_system r'" by simp
  ultimately show ?case by (simp add: r has_system_def)
next
  case (3 ts ps)
  then show ?case by simp
qed

lemma filter_no_system: "\<not> has_system (filter (\<lambda>c. \<not> system_in c) p)"
  by (simp add: has_system_def list_ex_iff)

lemma post_init_Inr_prefix:
  assumes "post_init f = Inr m"
  shows "move_system f = Inr (system_prefix m, prefix m)"
  using assms by (auto simp: post_init_def Let_def split: sum.splits prod.splits)

lemma post_init_Inr_prompt:
  assumes "post_init f = Inr m"
  shows "prompt m = (if has_system (prompt f) then filter (\<lambda>c. \<not> system_in c) (prompt f)
                     else prompt f)"
  using assms by (auto simp: post_init_def Let_def split: sum.splits prod.splits)

lemma to_generation_template_meta_Inr:
  "to_generation_template_meta self =
     Inr \<lparr> template_type = template_type self, prefix = [], prompt = [Str ''{{QUERY}}''],
           chat_sep = None, suffix = [Toks [TStr ''eos_token_id'']],
           template_cls = template_cls self, tool_prompt = Some [Str ''{{QUERY}}''],
           system_prefix = None, auto_add_bos = True, default_system = Some [],
           stop_words = stop_words self, placeholder_tokens = placeholder_tokens self,
           skip_prompt = skip_prompt self, default_tools_prompt = ''react_en'',
           support_stream = support_stream self, is_post_system = False,
           system_prompt = None, support_system = False, support_multi_round = False \<rparr>"
  by (simp add: to_generation_template_meta_def post_init_def move_system_def
      check_system_def has_system_def startswith_def SYSTEM_def Let_def)

text \<open>
  Claim C9 (as amended). After a successful construction no element of the prompt
  contains the placeholder. When the prefix embedded it, \<open>system_prefix\<close> is the prefix
  as given and the new prefix is that prefix with the occurrences found by one scan
  removed from each element; otherwise the prefix is unchanged. The new prefix contains
  no placeholder when, in every text of the given prefix, the only opening braces are
  those of the occurrences removed. The generation variant is always constructed, and
  neither its prefix nor its prompt contains the placeholder.
\<close>

theorem post_init_placeholder_removed:
  "post_init f = Inr m \<Longrightarrow>
     \<not> has_system (prompt m)
   \<and> (has_system (prefix f) \<longrightarrow>
        system_prefix m = Some (prefix f) \<and> replace_system (prefix f) = Inr (prefix m))
   \<and> (\<not> has_system (prefix f) \<longrightarrow> prefix m = prefix f)
   \<and> ((\<forall>s. Str s \<in> set (prefix f) \<longrightarrow> count_list s CHR ''{'' = 2 * str_count SYSTEM s)
        \<longrightarrow> \<not> has_system (prefix m))
   \<and> \<not> isl (to_generation_template_meta m)
   \<and> \<not> has_system (prefix (projr (to_generation_template_meta m)))
   \<and> \<not> has_system (prompt (projr (to_generation_template_meta m)))"
proof -
  assume a: "post_init f = Inr m"
  have 1: "\<not> has_system (prompt m)"
    using post_init_Inr_prompt [OF a] filter_no_system [of "prompt f"] by (simp split: if_splits)
  note mv = post_init_Inr_prefix [OF a]
  have 2: "has_system (prefix f) \<longrightarrow>
        system_prefix m = Some (prefix f) \<and> replace_system (prefix f) = Inr (prefix m)"
    using mv by (auto simp: move_system_def split: if_splits sum.splits)
  have 3: "\<not> has_system (prefix f) \<longrightarrow> prefix m = prefix f"
    using mv by (auto simp: move_system_def split: if_splits sum.splits)
  have 4: "(\<forall>s. Str s \<in> set (prefix f) \<longrightarrow> count_list s CHR ''{'' = 2 * str_count SYSTEM s)
        \<longrightarrow> \<not> has_system (prefix m)"
  proof (cases "has_system (prefix f)")
    case True
    with 2 show ?thesis using replace_system_clean [of "prefix f" "prefix m"] by blast
  next
    case False
    with 3 show ?thesis by simp
  qed
  have 5: "\<not> isl (to_generation_template_meta m)
   \<and> \<not> has_system (prefix (projr (to_generation_template_meta m)))
   \<and> \<not> has_system (prompt (projr (to_generation_template_meta m)))"
    by (simp add: to_generation_template_meta_Inr has_system_def startswith_def SYSTEM_def)
  from 1 2 3 4 5 show ?thesis by blast
qed

theorem post_init_placeholder_removed_witness:
  "\<not> has_system (prompt (projr (post_init embedded)))
   \<and> system_prefix (projr (post_init embedded)) = Some [Str ''<s>[INST] <<SYS>>{{SYSTEM}}<</SYS>>'']
   \<and> prefix (projr (post_init embedded)) = [Str ''<s>[INST] <<SYS>><</SYS>>'']
   \<and> \<not> has_system (prefix (projr (post_init embedded)))
   \<and> prefix (projr (post_init chatml)) = [Str ''<s>'']"
proof -
  have h: "post_init embedded = Inr (projr (post_init embedded))"
    by (simp add: embedded_def chatml_def eval_defs str_replace.simps)
  have h2: "post_init chatml = Inr (projr (post_init chatml))"
    by (simp add: chatml_def eval_defs)
  have p: "has_system (prefix embedded)"
    by (simp add: embedded_def chatml_def has_system_def startswith_def SYSTEM_def)
  have p2: "\<not> has_system (prefix chatml)" "prefix chatml = [Str ''<s>'']"
    by (simp_all add: chatml_def has_system_def startswith_def SYSTEM_def)
  have pe: "prefix embedded = [Str ''<s>[INST] <<SYS>>{{SYSTEM}}<</SYS>>'']"
    by (simp add: embedded_def chatml_def)
  have c: "\<forall>s. Str s \<in> set (prefix embedded) \<longrightarrow> count_list s CHR ''{'' = 2 * str_count SYSTEM s"
    by (simp add: pe str_count.simps SYSTEM_def startswith_def)
  have r: "replace_system (prefix embedded) = Inr [Str ''<s>[INST] <<SYS>><</SYS>>'']"
    by (simp add: pe str_replace.simps SYSTEM_def startswith_def)
  note t = post_init_placeholder_removed [OF h]
  note t2 = post_init_placeholder_removed [OF h2]
  from t p pe r have a: "system_prefix (projr (post_init embedded)) = Some [Str ''<s>[INST] <<SYS>>{{SYSTEM}}<</SYS>>'']"
    "prefix (projr (post_init embedded)) = [Str ''<s>[INST] <<SYS>><</SYS>>'']"
    by auto
  from t c have b: "\<not> has_system (prefix (projr (post_init embedded)))"
    "\<not> has_system (prompt (projr (post_init embedded)))"
    by blast+
  from t2 p2 have d: "prefix (projr (post_init chatml)) = [Str ''<s>'']" by auto
  from a b d show ?thesis by blast
qed

text \<open>
  Claim C9 as stated fails: \<open>replace\<close> does not scan the text it produces, so stripping
  the placeholder from \<open>{{SYS{{SYSTEM}}TEM}}\<close> leaves \<open>{{SYSTEM}}\<close> in the prefix of a
  successfully constructed object.
\<close>

theorem post_init_keeps_nested_placeholder:
  "\<not> isl (post_init nested_placeholder)
   \<and> has_system (prefix (projr (post_init nested_placeholder)))"
  by (simp add: nested_placeholder_def chatml_def eval_defs str_replace.simps)


section \<open>Properties of the store\<close>

lemma take_length_iff: "take (length xs) ys = xs \<longleftrightarrow> (\<exists>zs. ys = xs @ zs)"
proof
  assume "take (length xs) ys = xs"
  then have "ys = xs @ drop (length xs) ys" by (metis append_take_drop_id)
  then show "\<exists>zs. ys = xs @ zs" ..
next
  assume "\<exists>zs. ys = xs @ zs"
  then show "take (length xs) ys = xs" by auto
qed

lemma grows_iff:
  "grows st st' \<longleftrightarrow> (\<exists>ls ts. lists st' = lists st @ ls \<and> toklists st' = toklists st @ ts)"
  by (auto simp: grows_def take_length_iff)

lemma grows_refl: "grows st st"
  by (simp add: grows_def)

lemma grows_trans: "grows st st1 \<Longrightarrow> grows st1 st2 \<Longrightarrow> grows st st2"
  by (auto simp: grows_iff)

lemma grows_new_list: "new_list st cs = (st', a) \<Longrightarrow> grows st st'"
  by (auto simp: new_list_def grows_iff)

lemma grows_new_toks: "new_toks st ts = (st', a) \<Longrightarrow> grows st st'"
  by (auto simp: new_toks_def grows_iff)

lemma grows_get_list: "grows st st' \<Longrightarrow> a < length (lists st) \<Longrightarrow> get_list st' a = get_list st a"
  by (auto simp: grows_iff get_list_def nth_append)

lemma grows_get_toks:
  "grows st st' \<Longrightarrow> a < length (toklists st) \<Longrightarrow> get_toks st' a = get_toks st a"
  by (auto simp: grows_iff get_toks_def nth_append)

lemma grows_length:
  "grows st st' \<Longrightarrow>
   length (lists st) \<le> length (lists st') \<and> length (toklists st) \<le> length (toklists st')"
  by (auto simp: grows_iff)

lemma view_cells_stable:
  "grows st st' \<Longrightarrow> list_all (\<lambda>a. a < length (toklists st)) (refs_of cs) \<Longrightarrow>
   map (view_cell st') cs = map (view_cell st) cs"
  by (induction cs rule: refs_of.induct) (auto simp: grows_get_toks)

lemma memo_ok_grows:
  assumes "memo_ok n0 st memo" "grows st st'" "n0 \<le> length (toklists st)"
  shows "memo_ok n0 st' memo"
  unfolding memo_ok_def
proof (intro allI impI)
  fix a b assume "(a, b) \<in> set memo"
  with assms(1) have p: "n0 \<le> b" "b < length (toklists st)" "a < n0"
    "get_toks st b = get_toks st a"
    by (auto simp: memo_ok_def)
  from p(3) assms(3) have a: "a < length (toklists st)" by simp
  from grows_length [OF assms(2)] p(2) have "b < length (toklists st')" by simp
  with p grows_get_toks [OF assms(2) p(2)] grows_get_toks [OF assms(2) a]
  show "n0 \<le> b \<and> b < length (toklists st') \<and> a < n0 \<and> get_toks st' b = get_toks st' a"
    by simp
qed

lemma deepcopy_cells_props:
  assumes "deepcopy_cells st memo cs = (st', memo', r)"
    and "memo_ok n0 st memo"
    and "n0 \<le> length (toklists st)"
    and "list_all (\<lambda>a. a < n0) (refs_of cs)"
  shows "lists st' = lists st \<and> grows st st' \<and> memo_ok n0 st' memo'
       \<and> list_all (\<lambda>b. n0 \<le> b \<and> b < length (toklists st')) (refs_of r)
       \<and> map (view_cell st') r = map (view_cell st) cs"
  using assms
proof (induction st memo cs arbitrary: st' memo' r rule: deepcopy_cells.induct)
  case (1 st memo)
  then show ?case by (simp add: grows_refl)
next
  case (2 st memo s cs)
  from 2(2) obtain r0 where d: "deepcopy_cells st memo cs = (st', memo', r0)"
    and r: "r = Text s # r0"
    by (auto split: prod.splits)
  from 2(5) have w: "list_all (\<lambda>a. a < n0) (refs_of cs)" by simp
  from 2(1) [OF d 2(3) 2(4) w] show ?case by (simp add: r)
next
  case (3 st memo a cs)
  from 3(6) have an: "a < n0" and w: "list_all (\<lambda>a. a < n0) (refs_of cs)" by simp_all
  show ?case
  proof (cases "map_of memo a")
    case (Some b)
    with 3(3) obtain r0 where d: "deepcopy_cells st memo cs = (st', memo', r0)"
      and r: "r = Ref b # r0"
      by (auto split: prod.splits)
    note ih = 3(2) [OF Some d 3(4) 3(5) w]
    from Some have "(a, b) \<in> set memo" by (rule map_of_SomeD)
    with 3(4) have p: "n0 \<le> b" "b < length (toklists st)" "get_toks st b = get_toks st a"
      by (auto simp: memo_ok_def)
    from ih have g: "grows st st'" by simp
    from grows_length [OF g] p(2) have bl: "b < length (toklists st')" by simp
    from grows_get_toks [OF g p(2)] p(3) have "get_toks st' b = get_toks st a" by simp
    with ih p(1) bl show ?thesis by (simp add: r)
  next
    case None
    obtain st1 b where nt: "new_toks st (get_toks st a) = (st1, b)"
      by (cases "new_toks st (get_toks st a)")
    with None 3(3) obtain r0 where d: "deepcopy_cells st1 ((a, b) # memo) cs = (st', memo', r0)"
      and r: "r = Ref b # r0"
      by (auto split: prod.splits)
    from nt have b: "b = length (toklists st)"
      and st1: "st1 = st \<lparr> toklists := toklists st @ [get_toks st a] \<rparr>"
      by (auto simp: new_toks_def)
    have g1: "grows st st1" by (rule grows_new_toks [OF nt])
    have l1: "lists st1 = lists st" by (simp add: st1)
    have n1: "n0 \<le> length (toklists st1)" using 3(5) by (simp add: st1)
    from an 3(5) have al: "a < length (toklists st)" by simp
    have gb: "get_toks st1 b = get_toks st a" by (simp add: st1 b get_toks_def)
    have ga: "get_toks st1 a = get_toks st a" by (rule grows_get_toks [OF g1 al])
    have m1: "memo_ok n0 st1 ((a, b) # memo)"
      unfolding memo_ok_def
    proof (intro allI impI)
      fix x y assume "(x, y) \<in> set ((a, b) # memo)"
      then consider "x = a \<and> y = b" | "(x, y) \<in> set memo" by auto
      then show "n0 \<le> y \<and> y < length (toklists st1) \<and> x < n0 \<and> get_toks st1 y = get_toks st1 x"
      proof cases
        case 1
        with 3(5) an gb ga show ?thesis by (simp add: b st1)
      next
        case 2
        with memo_ok_grows [OF 3(4) g1 3(5)] show ?thesis by (auto simp: memo_ok_def)
      qed
    qed
    note ih = 3(1) [OF None nt [symmetric] d m1 n1 w]
    from ih have g: "grows st1 st'" by simp
    have bl1: "b < length (toklists st1)" by (simp add: st1 b)
    from grows_length [OF g] bl1 have bl: "b < length (toklists st')" by simp
    from grows_get_toks [OF g bl1] gb have vb: "get_toks st' b = get_toks st a" by simp
    have vs: "map (view_cell st1) cs = map (view_cell st) cs"
    proof (rule view_cells_stable [OF g1])
      from w 3(5) show "list_all (\<lambda>a. a < length (toklists st)) (refs_of cs)"
        by (auto simp: list_all_iff)
    qed
    from ih l1 grows_trans [OF g1 g] 3(5) bl vb vs show ?thesis
      by (simp add: r b)
  qed
qed

lemma deepcopy_list_props:
  assumes d: "deepcopy_list st a = (st', b)"
    and w: "list_all (\<lambda>x. x < length (toklists st)) (refs_of (get_list st a))"
  shows "\<exists>r ext. lists st' = lists st @ [r] \<and> toklists st' = toklists st @ ext
           \<and> b = length (lists st)
           \<and> list_all (\<lambda>x. length (toklists st) \<le> x \<and> x < length (toklists st')) (refs_of r)
           \<and> map (view_cell st') r = view_list st a"
proof -
  obtain s1 memo r where c: "deepcopy_cells st [] (get_list st a) = (s1, memo, r)"
    by (cases "deepcopy_cells st [] (get_list st a)") auto
  with d have n: "new_list s1 r = (st', b)" by (simp add: deepcopy_list_def)
  have m0: "memo_ok (length (toklists st)) st []" by (simp add: memo_ok_def)
  from deepcopy_cells_props [OF c m0 le_refl w]
  have l: "lists s1 = lists st" and g: "grows st s1"
    and rr: "list_all (\<lambda>x. length (toklists st) \<le> x \<and> x < length (toklists s1)) (refs_of r)"
    and v: "map (view_cell s1) r = map (view_cell st) (get_list st a)"
    by simp_all
  from n have st': "st' = s1 \<lparr> lists := lists s1 @ [r] \<rparr>" and b: "b = length (lists s1)"
    by (auto simp: new_list_def)
  from g obtain ext where e: "toklists s1 = toklists st @ ext"
    by (auto simp: grows_iff)
  have tk: "toklists st' = toklists s1" by (simp add: st')
  have vc: "view_cell st' = view_cell s1"
  proof
    fix c show "view_cell st' c = view_cell s1 c"
      by (cases c) (simp_all add: get_toks_def tk)
  qed
  have "lists st' = lists st @ [r]" by (simp add: st' l)
  moreover have "toklists st' = toklists st @ ext" by (simp add: tk e)
  moreover have "b = length (lists st)" by (simp add: b l)
  moreover from rr have
    "list_all (\<lambda>x. length (toklists st) \<le> x \<and> x < length (toklists st')) (refs_of r)"
    by (simp add: tk)
  moreover from v have "map (view_cell st') r = view_list st a"
    by (simp add: vc view_list_def)
  ultimately show ?thesis by blast
qed

lemma wf_meta_stop_words:
  assumes "wf_meta st m"
  shows "stop_words m < length (lists st)"
    and "list_all (\<lambda>x. x < length (toklists st)) (refs_of (get_list st (stop_words m)))"
    and "placeholder_tokens m < length (toklists st)"
  using assms by (simp_all add: wf_meta_def list_addrs_def tok_addrs_def)

lemma new_list_props:
  "new_list st cs = (st', a) \<Longrightarrow>
   lists st' = lists st @ [cs] \<and> toklists st' = toklists st \<and> a = length (lists st)"
  by (auto simp: new_list_def)

lemma new_toks_props:
  "new_toks st ts = (st', a) \<Longrightarrow>
   lists st' = lists st \<and> toklists st' = toklists st @ [ts] \<and> a = length (toklists st)"
  by (auto simp: new_toks_def)

lemma post_init_st_plain:
  assumes "\<not> has_system (view_list st (prefix f))" "\<not> has_system (view_list st (prompt f))"
    and "system_prefix f = None" "default_system f = None" "tool_prompt f = None"
  shows "post_init_st st f =
     Inr (st, \<lparr> template_type = template_type f, prefix = prefix f, prompt = prompt f,
                chat_sep = chat_sep f, suffix = suffix f, template_cls = template_cls f,
                tool_prompt = Some (prompt f), system_prefix = None,
                auto_add_bos = auto_add_bos f, default_system = Some [],
                stop_words = stop_words f, placeholder_tokens = placeholder_tokens f,
                skip_prompt = skip_prompt f, default_tools_prompt = default_tools_prompt f,
                support_stream = support_stream f, is_post_system = False,
                system_prompt = None, support_system = False,
                support_multi_round = (chat_sep f \<noteq> None) \<rparr>)"
  using assms by (simp add: post_init_st_def move_system_st_def check_system_def)

lemma to_generation_template_meta_st_explicit:
  assumes wf: "wf_meta st self"
  shows "\<exists>st' r ext.
     to_generation_template_meta_st st self =
       Inr (st',
            \<lparr> template_type = template_type self,
              prefix = length (lists st),
              prompt = length (lists st) + 1,
              chat_sep = None,
              suffix = length (lists st) + 2,
              template_cls = template_cls self,
              tool_prompt = Some (length (lists st) + 1),
              system_prefix = None,
              auto_add_bos = True,
              default_system = Some [],
              stop_words = length (lists st) + 3,
              placeholder_tokens = length (toklists st) + 1 + length ext,
              skip_prompt = skip_prompt self,
              default_tools_prompt = ''react_en'',
              support_stream = support_stream self,
              is_post_system = False,
              system_prompt = None,
              support_system = False,
              support_multi_round = False \<rparr>)
     \<and> lists st' = lists st @ [[], [Text ''{{QUERY}}''], [Ref (length (toklists st))], r]
     \<and> toklists st' = toklists st @ [TStr ''eos_token_id''] # ext
                           @ [get_toks st (placeholder_tokens self)]
     \<and> list_all (\<lambda>x. length (toklists st) < x \<and> x < length (toklists st) + 1 + length ext)
          (refs_of r)
     \<and> map (view_cell st') r = view_list st (stop_words self)"
proof -
  let ?L = "length (lists st)" and ?T = "length (toklists st)"
  note w = wf_meta_stop_words [OF wf]
  obtain st1 a1 where n1: "new_list st [] = (st1, a1)"
    by (cases "new_list st []")
  obtain st2 a2 where n2: "new_list st1 [Text ''{{QUERY}}''] = (st2, a2)"
    by (cases "new_list st1 [Text ''{{QUERY}}'']")
  obtain st3 a3 where n3: "new_toks st2 [TStr ''eos_token_id''] = (st3, a3)"
    by (cases "new_toks st2 [TStr ''eos_token_id'']")
  obtain st4 a4 where n4: "new_list st3 [Ref a3] = (st4, a4)"
    by (cases "new_list st3 [Ref a3]")
  obtain st5 a5 where d5: "deepcopy_list st4 (stop_words self) = (st5, a5)"
    by (cases "deepcopy_list st4 (stop_words self)")
  obtain st6 a6 where d6: "deepcopy_toks st5 (placeholder_tokens self) = (st6, a6)"
    by (cases "deepcopy_toks st5 (placeholder_tokens self)")
  from new_list_props [OF n1] new_list_props [OF n2] new_toks_props [OF n3]
    new_list_props [OF n4]
  have a: "a1 = ?L" "a2 = ?L + 1" "a3 = ?T" "a4 = ?L + 2"
    and l4: "lists st4 = lists st @ [[], [Text ''{{QUERY}}''], [Ref ?T]]"
    and t4: "toklists st4 = toklists st @ [[TStr ''eos_token_id'']]"
    by simp_all
  have g4: "grows st st4" by (simp add: grows_iff l4 t4)
  have gl: "get_list st4 (stop_words self) = get_list st (stop_words self)"
    by (rule grows_get_list [OF g4 w(1)])
  have w4: "list_all (\<lambda>x. x < length (toklists st4)) (refs_of (get_list st4 (stop_words self)))"
    unfolding gl using w(2) by (auto simp: t4 list_all_iff)
  from deepcopy_list_props [OF d5 w4] obtain r ext where
    l5: "lists st5 = lists st4 @ [r]" and t5: "toklists st5 = toklists st4 @ ext"
    and a5: "a5 = length (lists st4)"
    and rr: "list_all (\<lambda>x. length (toklists st4) \<le> x \<and> x < length (toklists st5)) (refs_of r)"
    and v: "map (view_cell st5) r = view_list st4 (stop_words self)"
    by blast
  have v4: "view_list st4 (stop_words self) = view_list st (stop_words self)"
    unfolding view_list_def gl
    by (rule view_cells_stable [OF g4 w(2)])
  have p5: "get_toks st5 (placeholder_tokens self) = get_toks st (placeholder_tokens self)"
    using w(3) by (simp add: t5 t4 get_toks_def nth_append)
  from new_toks_props [OF d6 [unfolded deepcopy_toks_def]] p5
  have l6: "lists st6 = lists st @ [[], [Text ''{{QUERY}}''], [Ref ?T], r]"
    and t6: "toklists st6 = toklists st @ [TStr ''eos_token_id''] # ext
                           @ [get_toks st (placeholder_tokens self)]"
    and a6: "a6 = ?T + 1 + length ext"
    by (simp_all add: l5 l4 t5 t4)
  have g56: "grows st5 st6" by (simp add: grows_iff l6 l5 l4 t6 t5 t4)
  have r6: "list_all (\<lambda>x. x < length (toklists st5)) (refs_of r)"
    using rr by (auto simp: list_all_iff)
  have v6: "map (view_cell st6) r = view_list st (stop_words self)"
    using view_cells_stable [OF g56 r6] v v4 by simp
  have h1: "view_list st6 ?L = []"
    by (simp add: view_list_def get_list_def l6 nth_append)
  have h2: "view_list st6 (Suc ?L) = [Str ''{{QUERY}}'']"
    by (simp add: view_list_def get_list_def l6 nth_append)
  have ns: "\<not> has_system []" "\<not> has_system [Str ''{{QUERY}}'']"
    by (simp_all add: has_system_def startswith_def SYSTEM_def)
  have e: "to_generation_template_meta_st st self =
       Inr (st6,
            \<lparr> template_type = template_type self,
              prefix = ?L, prompt = ?L + 1, chat_sep = None, suffix = ?L + 2,
              template_cls = template_cls self, tool_prompt = Some (?L + 1),
              system_prefix = None, auto_add_bos = True, default_system = Some [],
              stop_words = ?L + 3, placeholder_tokens = ?T + 1 + length ext,
              skip_prompt = skip_prompt self, default_tools_prompt = ''react_en'',
              support_stream = support_stream self, is_post_system = False,
              system_prompt = None, support_system = False, support_multi_round = False \<rparr>)"
    unfolding to_generation_template_meta_st_def n1 n2 n3 n4 d5 d6 prod.case
    by (subst post_init_st_plain) (simp_all add: a a5 a6 l4 h1 h2 ns)
  from rr have r': "list_all (\<lambda>x. ?T < x \<and> x < ?T + 1 + length ext) (refs_of r)"
    by (auto simp: t4 t5 list_all_iff)
  from e l6 t6 r' v6 show ?thesis by blast
qed

lemma view_list_stable:
  assumes "grows st st'" "a < length (lists st)"
    and "list_all (\<lambda>x. x < length (toklists st)) (refs_of (get_list st a))"
  shows "view_list st' a = view_list st a"
  unfolding view_list_def grows_get_list [OF assms(1,2)]
  by (rule view_cells_stable [OF assms(1,3)])

lemma wf_meta_list:
  assumes "wf_meta st m" "a \<in> set (list_addrs m)"
  shows "a < length (lists st)"
    and "list_all (\<lambda>x. x < length (toklists st)) (refs_of (get_list st a))"
  using assms by (auto simp: wf_meta_def tok_addrs_def list_all_iff)

lemma wf_meta_view_list:
  assumes "wf_meta st m" "grows st st'" "a \<in> set (list_addrs m)"
  shows "view_list st' a = view_list st a"
  by (rule view_list_stable [OF assms(2) wf_meta_list [OF assms(1,3)]])

lemma wf_meta_view:
  assumes wf: "wf_meta st m" and g: "grows st st'"
  shows "view_meta st' m = view_meta st m"
proof -
  note v = wf_meta_view_list [OF wf g]
  have 1: "view_list st' (prefix m) = view_list st (prefix m)"
    "view_list st' (prompt m) = view_list st (prompt m)"
    "view_list st' (suffix m) = view_list st (suffix m)"
    "view_list st' (stop_words m) = view_list st (stop_words m)"
    by (rule v, simp add: list_addrs_def)+
  have 2: "map_option (view_list st') (chat_sep m) = map_option (view_list st) (chat_sep m)"
    by (cases "chat_sep m") (simp_all add: v list_addrs_def)
  have 3: "map_option (view_list st') (tool_prompt m) = map_option (view_list st) (tool_prompt m)"
    by (cases "tool_prompt m") (simp_all add: v list_addrs_def)
  have 4: "map_option (view_list st') (system_prefix m)
           = map_option (view_list st) (system_prefix m)"
    by (cases "system_prefix m") (simp_all add: v list_addrs_def)
  have 5: "map_option (view_list st') (system_prompt m)
           = map_option (view_list st) (system_prompt m)"
    by (cases "system_prompt m") (simp_all add: v list_addrs_def)
  from wf have "placeholder_tokens m < length (toklists st)"
    by (simp add: wf_meta_def tok_addrs_def)
  then have 6: "get_toks st' (placeholder_tokens m) = get_toks st (placeholder_tokens m)"
    by (rule grows_get_toks [OF g])
  show ?thesis
    unfolding view_meta_def 1 2 3 4 5 6 ..
qed


section \<open>The generation variant\<close>

text \<open>
  Claim C5 (as amended). For every object whose lists are allocated,
  \<open>to_generation_template_meta\<close> succeeds and returns a new object: its value is the one
  the value-level function computes; its prefix is empty, its prompt is the single query
  placeholder and its suffix is the end-of-sequence marker; \<open>template_type\<close>,
  \<open>template_cls\<close>, \<open>skip_prompt\<close>, \<open>support_stream\<close>, the stop words and the placeholder
  tokens are those of the source, by value; \<open>auto_add_bos\<close> is set, \<open>chat_sep\<close> and
  \<open>system_prefix\<close> are \<open>None\<close>, \<open>tool_prompt\<close> is the new prompt, \<open>default_system\<close> is empty
  and \<open>default_tools_prompt\<close> is \<open>react_en\<close>. No list and no token list of the result is
  one of the source, every list of the old store is in the new store unchanged, and the
  source reads as before.
\<close>

theorem to_generation_template_meta_fresh_copy:
  assumes wf: "wf_meta st self"
  shows "\<exists>st' g.
       to_generation_template_meta_st st self = Inr (st', g)
     \<and> to_generation_template_meta (view_meta st self) = Inr (view_meta st' g)
     \<and> prefix (view_meta st' g) = []
     \<and> prompt (view_meta st' g) = [Str ''{{QUERY}}'']
     \<and> suffix (view_meta st' g) = [Toks [TStr ''eos_token_id'']]
     \<and> template_type g = template_type self
     \<and> template_cls g = template_cls self
     \<and> skip_prompt g = skip_prompt self
     \<and> support_stream g = support_stream self
     \<and> stop_words (view_meta st' g) = stop_words (view_meta st self)
     \<and> placeholder_tokens (view_meta st' g) = placeholder_tokens (view_meta st self)
     \<and> auto_add_bos g
     \<and> chat_sep g = None
     \<and> system_prefix g = None
     \<and> tool_prompt g = Some (prompt g)
     \<and> default_system g = Some []
     \<and> default_tools_prompt g = ''react_en''
     \<and> set (list_addrs g) \<inter> set (list_addrs self) = {}
     \<and> set (tok_addrs st' g) \<inter> set (tok_addrs st self) = {}
     \<and> grows st st'
     \<and> view_meta st' self = view_meta st self"
proof -
  let ?L = "length (lists st)" and ?T = "length (toklists st)"
  from to_generation_template_meta_st_explicit [OF wf] obtain st' r ext where
    e: "to_generation_template_meta_st st self =
       Inr (st',
            \<lparr> template_type = template_type self,
              prefix = ?L, prompt = ?L + 1, chat_sep = None, suffix = ?L + 2,
              template_cls = template_cls self, tool_prompt = Some (?L + 1),
              system_prefix = None, auto_add_bos = True, default_system = Some [],
              stop_words = ?L + 3, placeholder_tokens = ?T + 1 + length ext,
              skip_prompt = skip_prompt self, default_tools_prompt = ''react_en'',
              support_stream = support_stream self, is_post_system = False,
              system_prompt = None, support_system = False, support_multi_round = False \<rparr>)"
    and l: "lists st' = lists st @ [[], [Text ''{{QUERY}}''], [Ref ?T], r]"
    and t: "toklists st' = toklists st @ [TStr ''eos_token_id''] # ext
                           @ [get_toks st (placeholder_tokens self)]"
    and rr: "list_all (\<lambda>x. ?T < x \<and> x < ?T + 1 + length ext) (refs_of r)"
    and v: "map (view_cell st') r = view_list st (stop_words self)"
    by blast
  define g :: TemplateMeta_ref where "g =
            \<lparr> template_type = template_type self,
              prefix = ?L, prompt = ?L + 1, chat_sep = None, suffix = ?L + 2,
              template_cls = template_cls self, tool_prompt = Some (?L + 1),
              system_prefix = None, auto_add_bos = True, default_system = Some [],
              stop_words = ?L + 3, placeholder_tokens = ?T + 1 + length ext,
              skip_prompt = skip_prompt self, default_tools_prompt = ''react_en'',
              support_stream = support_stream self, is_post_system = False,
              system_prompt = None, support_system = False, support_multi_round = False \<rparr>"
  have e': "to_generation_template_meta_st st self = Inr (st', g)"
    using e by (simp add: g_def)
  have gl: "get_list st' ?L = []" "get_list st' (Suc ?L) = [Text ''{{QUERY}}'']"
    "get_list st' (Suc (Suc ?L)) = [Ref ?T]" "get_list st' (Suc (Suc (Suc ?L))) = r"
    by (simp_all add: get_list_def l nth_append)
  have gl': "get_list st' (?L + 1) = [Text ''{{QUERY}}'']" "get_list st' (?L + 2) = [Ref ?T]"
    "get_list st' (?L + 3) = r"
    by (simp_all add: get_list_def l nth_append)
  have gt: "get_toks st' ?T = [TStr ''eos_token_id'']"
    "get_toks st' (Suc (?T + length ext)) = get_toks st (placeholder_tokens self)"
    by (simp_all add: get_toks_def t nth_append)
  have gt': "get_toks st' (?T + 1 + length ext) = get_toks st (placeholder_tokens self)"
    by (simp add: get_toks_def t nth_append)
  have vg: "view_meta st' g =
     \<lparr> template_type = template_type self, prefix = [], prompt = [Str ''{{QUERY}}''],
       chat_sep = None, suffix = [Toks [TStr ''eos_token_id'']],
       template_cls = template_cls self, tool_prompt = Some [Str ''{{QUERY}}''],
       system_prefix = None, auto_add_bos = True, default_system = Some [],
       stop_words = view_list st (stop_words self),
       placeholder_tokens = get_toks st (placeholder_tokens self),
       skip_prompt = skip_prompt self, default_tools_prompt = ''react_en'',
       support_stream = support_stream self, is_post_system = False,
       system_prompt = None, support_system = False, support_multi_round = False \<rparr>"
    using v by (simp add: view_meta_def g_def view_list_def gl gl' gt gt' del: One_nat_def add_Suc_right)
  have 1: "to_generation_template_meta (view_meta st self) = Inr (view_meta st' g)"
    unfolding vg to_generation_template_meta_Inr by (simp add: view_meta_def)
  have la: "list_addrs g = [?L, ?L + 1, ?L + 2, ?L + 3, ?L + 1]"
    by (simp add: list_addrs_def g_def)
  have ls: "\<forall>a \<in> set (list_addrs self). a < ?L"
    using wf by (simp add: wf_meta_def list_all_iff)
  have 2: "set (list_addrs g) \<inter> set (list_addrs self) = {}"
    using ls by (auto simp: la)
  have pg: "placeholder_tokens g = Suc (?T + length ext)"
    by (simp add: g_def)
  have ta: "set (tok_addrs st' g) = {Suc (?T + length ext), ?T} \<union> set (refs_of r)"
    unfolding tok_addrs_def la pg by (auto simp: gl gl')
  have ts: "\<forall>a \<in> set (tok_addrs st self). a < ?T"
    using wf by (simp add: wf_meta_def list_all_iff)
  have 3: "set (tok_addrs st' g) \<inter> set (tok_addrs st self) = {}"
    using ts rr unfolding ta by (fastforce simp: list_all_iff)
  have 4: "grows st st'" by (simp add: grows_iff l t)
  have 5: "view_meta st' self = view_meta st self" by (rule wf_meta_view [OF wf 4])
  have 6: "prefix (view_meta st' g) = []" "prompt (view_meta st' g) = [Str ''{{QUERY}}'']"
    "suffix (view_meta st' g) = [Toks [TStr ''eos_token_id'']]"
    "stop_words (view_meta st' g) = stop_words (view_meta st self)"
    "placeholder_tokens (view_meta st' g) = placeholder_tokens (view_meta st self)"
    unfolding vg by (simp_all add: view_meta_def)
  have 7: "template_type g = template_type self" "template_cls g = template_cls self"
    "skip_prompt g = skip_prompt self" "support_stream g = support_stream self"
    "auto_add_bos g" "chat_sep g = None" "system_prefix g = None"
    "tool_prompt g = Some (prompt g)" "default_system g = Some []"
    "default_tools_prompt g = ''react_en''"
    by (simp_all add: g_def)
  from e' 1 2 3 4 5 6 7 show ?thesis by blast
qed

theorem to_generation_template_meta_fresh_copy_witness:
  "wf_meta example_store example_meta
   \<and> \<not> isl (to_generation_template_meta_st example_store example_meta)
   \<and> set (list_addrs (snd (projr (to_generation_template_meta_st example_store example_meta))))
       \<inter> set (list_addrs example_meta) = {}
   \<and> prefix (snd (projr (to_generation_template_meta_st example_store example_meta))) = 5"
proof -
  have wf: "wf_meta example_store example_meta"
    by (simp add: wf_meta_def example_store_def example_meta_def list_addrs_def tok_addrs_def
        get_list_def)
  from to_generation_template_meta_fresh_copy [OF wf] obtain st' g where
    e: "to_generation_template_meta_st example_store example_meta = Inr (st', g)"
    and d: "set (list_addrs g) \<inter> set (list_addrs example_meta) = {}"
    by blast
  have p: "prefix (snd (projr (to_generation_template_meta_st example_store example_meta))) = 5"
    by (simp add: to_generation_template_meta_st_def new_list_def new_toks_def
        deepcopy_list_def deepcopy_toks_def example_store_def example_meta_def get_list_def
        get_toks_def post_init_st_def move_system_st_def check_system_def view_list_def
        has_system_def startswith_def SYSTEM_def Let_def)
  from wf e d p show ?thesis by simp
qed

text \<open>
  Claim C5 as stated fails where it says that all other flags are preserved: the variant
  sets \<open>auto_add_bos\<close> whatever the source has, and having no \<open>chat_sep\<close> it does not
  support several rounds even if the source does.
\<close>

theorem generation_variant_overrides_flags:
  "\<not> auto_add_bos (projr (post_init chatml))
   \<and> auto_add_bos (projr (to_generation_template_meta (projr (post_init chatml))))
   \<and> support_multi_round (projr (post_init chatml))
   \<and> \<not> support_multi_round (projr (to_generation_template_meta (projr (post_init chatml))))"
  by (simp add: to_generation_template_meta_Inr) (simp add: chatml_def eval_defs)


section \<open>The store model against the value model\<close>

lemma view_cell_toklists: "toklists st' = toklists st \<Longrightarrow> view_cell st' c = view_cell st c"
  by (cases c) (simp_all add: get_toks_def)

lemma new_list_view:
  assumes "new_list st cs = (st', a)"
  shows "toklists st' = toklists st"
    and "view_list st' a = map (view_cell st) cs"
    and "b < length (lists st) \<Longrightarrow> view_list st' b = view_list st b"
proof -
  from assms have st': "st' = st \<lparr> lists := lists st @ [cs] \<rparr>" and a: "a = length (lists st)"
    by (auto simp: new_list_def)
  show t: "toklists st' = toklists st" by (simp add: st')
  have vc: "view_cell st' = view_cell st"
    by (rule ext) (rule view_cell_toklists [OF t])
  show "view_list st' a = map (view_cell st) cs"
    unfolding view_list_def vc by (simp add: get_list_def st' a)
  show "b < length (lists st) \<Longrightarrow> view_list st' b = view_list st b"
    unfolding view_list_def vc by (simp add: get_list_def st' nth_append)
qed

lemma replace_cells_view:
  "replace_system (map (view_cell st) cs) = map_sum id (map (view_cell st)) (replace_cells cs)"
  by (induction cs rule: replace_cells.induct) (auto split: sum.splits)

lemma filter_cells_view:
  "map (view_cell st) (filter (\<lambda>c. \<not> system_in (view_cell st c)) cs)
   = filter (\<lambda>c. \<not> system_in c) (map (view_cell st) cs)"
  by (induction cs) auto


lemma wf_fields_addrs:
  assumes "wf_fields st f"
  shows "prefix f < length (lists st)" "prompt f < length (lists st)"
    "suffix f < length (lists st)" "stop_words f < length (lists st)"
    "chat_sep f = Some a \<Longrightarrow> a < length (lists st)"
    "tool_prompt f = Some a \<Longrightarrow> a < length (lists st)"
    "system_prefix f = Some a \<Longrightarrow> a < length (lists st)"
  using assms by (simp_all add: wf_fields_def)

lemma move_system_st_refines:
  assumes wf: "wf_fields st f"
  shows "case move_system_st st f of
           Inl e \<Rightarrow> move_system (view_fields st f) = Inl e
         | Inr (st', sp, pre) \<Rightarrow>
             move_system (view_fields st f)
               = Inr (map_option (view_list st') sp, view_list st' pre)
             \<and> toklists st' = toklists st
             \<and> (\<forall>b < length (lists st). b < length (lists st') \<and> view_list st' b = view_list st b)
             \<and> pre < length (lists st')
             \<and> (\<forall>a. sp = Some a \<longrightarrow> a < length (lists st'))
             \<and> (sp = None \<longleftrightarrow> system_prefix f = None \<and> \<not> has_system (view_list st (prefix f)))"
proof -
  note w = wf_fields_addrs [OF wf]
  have vf: "prefix (view_fields st f) = view_list st (prefix f)"
    "system_prefix (view_fields st f) = map_option (view_list st) (system_prefix f)"
    by (simp_all add: view_fields_def)
  show ?thesis
  proof (cases "has_system (view_list st (prefix f))")
    case False
    then show ?thesis
      using w by (auto simp: move_system_st_def move_system_def vf)
  next
    case hs: True
    show ?thesis
    proof (cases "system_prefix f")
      case (Some a)
      with hs show ?thesis by (simp add: move_system_st_def move_system_def vf)
    next
      case None
      show ?thesis
      proof (cases "replace_cells (get_list st (prefix f))")
        case (Inl e)
        then have "replace_system (view_list st (prefix f)) = Inl e"
          by (simp add: view_list_def replace_cells_view)
        with hs None Inl show ?thesis
          by (simp add: move_system_st_def move_system_def vf)
      next
        case (Inr p)
        obtain st' a where n: "new_list st p = (st', a)" by (cases "new_list st p")
        note nv = new_list_view [OF n]
        from n have len: "length (lists st') = Suc (length (lists st))" "a = length (lists st)"
          by (auto simp: new_list_def)
        from Inr have rs: "replace_system (view_list st (prefix f)) = Inr (map (view_cell st) p)"
          by (simp add: view_list_def replace_cells_view)
        have m: "move_system_st st f = Inr (st', Some (prefix f), a)"
          using hs None Inr n by (simp add: move_system_st_def)
        have "move_system (view_fields st f)
               = Inr (Some (view_list st (prefix f)), map (view_cell st) p)"
          using hs None rs by (simp add: move_system_def vf)
        with nv w(1) len hs show ?thesis
          unfolding m by simp
      qed
    qed
  qed
qed


text \<open>
  Construction over the store computes what construction over the values computes: on
  arguments whose lists are allocated, \<open>post_init_st\<close> fails exactly when \<open>post_init\<close>
  fails on the values of the arguments, with the same error, and otherwise the object
  it returns has, read through the new store, the value \<open>post_init\<close> returns.
\<close>

theorem post_init_st_refines:
  assumes wf: "wf_fields st f"
  shows "case post_init_st st f of
           Inl e \<Rightarrow> post_init (view_fields st f) = Inl e
         | Inr (st', m) \<Rightarrow> post_init (view_fields st f) = Inr (view_meta st' m)"
proof (cases "move_system_st st f")
  case (Inl e)
  with move_system_st_refines [OF wf] have "move_system (view_fields st f) = Inl e" by simp
  with Inl show ?thesis by (simp add: post_init_st_def post_init_def)
next
  case (Inr t)
  obtain st1 sp pre where t: "t = (st1, sp, pre)" by (cases t)
  note w = wf_fields_addrs [OF wf]
  from move_system_st_refines [OF wf] Inr t
  have mv: "move_system (view_fields st f)
               = Inr (map_option (view_list st1) sp, view_list st1 pre)"
    and tk: "toklists st1 = toklists st"
    and st: "\<And>b. b < length (lists st) \<Longrightarrow>
               b < length (lists st1) \<and> view_list st1 b = view_list st b"
    and pre: "pre < length (lists st1)"
    and sp: "\<And>a. sp = Some a \<Longrightarrow> a < length (lists st1)"
    by simp_all
  define post where "post = has_system (view_list st1 (prompt f))"
  define cs where "cs = filter (\<lambda>c. \<not> system_in (view_cell st1 c)) (get_list st1 (prompt f))"
  obtain st2 prm where p2: "(if post then new_list st1 cs else (st1, prompt f)) = (st2, prm)"
    by (cases "if post then new_list st1 cs else (st1, prompt f)")
  have vp: "view_list st1 (prompt f) = view_list st (prompt f)"
    using st [OF w(2)] by simp
  have keep: "\<And>b. b < length (lists st1) \<Longrightarrow> view_list st2 b = view_list st1 b"
    and vprm: "view_list st2 prm
        = (if post then filter (\<lambda>c. \<not> system_in c) (view_list st (prompt f))
           else view_list st (prompt f))"
  proof -
    show "\<And>b. b < length (lists st1) \<Longrightarrow> view_list st2 b = view_list st1 b"
    proof (cases post)
      case True
      with p2 have n: "new_list st1 cs = (st2, prm)" by simp
      fix b assume "b < length (lists st1)"
      then show "view_list st2 b = view_list st1 b" by (rule new_list_view(3) [OF n])
    next
      case False
      with p2 have "st2 = st1" by simp
      then show "\<And>b. view_list st2 b = view_list st1 b" by simp
    qed
    show "view_list st2 prm
        = (if post then filter (\<lambda>c. \<not> system_in c) (view_list st (prompt f))
           else view_list st (prompt f))"
    proof (cases post)
      case True
      with p2 have n: "new_list st1 cs = (st2, prm)" by simp
      have "view_list st2 prm = map (view_cell st1) cs" by (rule new_list_view(2) [OF n])
      also have "\<dots> = filter (\<lambda>c. \<not> system_in c) (view_list st1 (prompt f))"
        by (simp add: cs_def filter_cells_view view_list_def)
      finally show ?thesis using True vp by simp
    next
      case False
      with p2 have "st2 = st1" "prm = prompt f" by simp_all
      with False vp show ?thesis by simp
    qed
  qed
  have old: "\<And>b. b < length (lists st) \<Longrightarrow> view_list st2 b = view_list st b"
    using st keep by simp
  have vpre: "view_list st2 pre = view_list st1 pre" by (rule keep [OF pre])
  have vsp: "map_option (view_list st2) sp = map_option (view_list st1) sp"
    by (cases sp) (simp_all add: keep sp)
  have tk2: "get_toks st2 (placeholder_tokens f) = get_toks st (placeholder_tokens f)"
  proof (cases post)
    case True
    with p2 have n: "new_list st1 cs = (st2, prm)" by simp
    from new_list_view(1) [OF n] tk show ?thesis by (simp add: get_toks_def)
  next
    case False
    with p2 have "st2 = st1" by simp
    with tk show ?thesis by (simp add: get_toks_def)
  qed
  have opt: "map_option (view_list st2) (chat_sep f) = map_option (view_list st) (chat_sep f)"
    "map_option (view_list st2) (tool_prompt f) = map_option (view_list st) (tool_prompt f)"
    by (cases "chat_sep f"; simp add: old w) (cases "tool_prompt f"; simp add: old w)
  have vf: "prompt (view_fields st f) = view_list st (prompt f)"
    "default_system (view_fields st f) = default_system f"
    "tool_prompt (view_fields st f) = map_option (view_list st) (tool_prompt f)"
    "chat_sep (view_fields st f) = map_option (view_list st) (chat_sep f)"
    "suffix (view_fields st f) = view_list st (suffix f)"
    "stop_words (view_fields st f) = view_list st (stop_words f)"
    "placeholder_tokens (view_fields st f) = get_toks st (placeholder_tokens f)"
    "template_type (view_fields st f) = template_type f"
    "template_cls (view_fields st f) = template_cls f"
    "auto_add_bos (view_fields st f) = auto_add_bos f"
    "skip_prompt (view_fields st f) = skip_prompt f"
    "default_tools_prompt (view_fields st f) = default_tools_prompt f"
    "support_stream (view_fields st f) = support_stream f"
    by (simp_all add: view_fields_def)
  have pst: "post = has_system (view_list st (prompt f))" by (simp add: post_def vp)
  have spn: "(map_option (view_list st1) sp = None) = (sp = None)" by simp
  have unf: "post_init_st st f =
      (case check_system (if sp = None \<and> \<not> post then False else True) (default_system f) of
         Inl e \<Rightarrow> Inl e
       | Inr sys \<Rightarrow>
           Inr (st2,
       \<lparr> template_type = template_type f, prefix = pre, prompt = prm,
         chat_sep = chat_sep f, suffix = suffix f, template_cls = template_cls f,
         tool_prompt = (if tool_prompt f = None then Some prm else tool_prompt f),
         system_prefix = sp, auto_add_bos = auto_add_bos f, default_system = Some sys,
         stop_words = stop_words f, placeholder_tokens = placeholder_tokens f,
         skip_prompt = skip_prompt f, default_tools_prompt = default_tools_prompt f,
         support_stream = support_stream f, is_post_system = post,
         system_prompt = (if post then Some prm else None),
         support_system = (if sp = None \<and> \<not> post then False else True),
         support_multi_round = (chat_sep f \<noteq> None) \<rparr>))"
  proof (cases post)
    case True
    with p2 have n: "new_list st1 cs = (st2, prm)" by simp
    have h: "has_system (view_list st1 (prompt f))" using True by (simp add: post_def)
    show ?thesis
      unfolding post_init_st_def \<open>move_system_st st f = Inr t\<close> t post_def
      using h n [unfolded cs_def] by (simp add: Let_def)
  next
    case False
    with p2 have eq: "st2 = st1" "prm = prompt f" by simp_all
    have h: "\<not> has_system (view_list st1 (prompt f))" using False by (simp add: post_def)
    show ?thesis
      unfolding post_init_st_def \<open>move_system_st st f = Inr t\<close> t post_def eq
      using h by (simp add: Let_def)
  qed
  show ?thesis
  proof (cases "check_system (if sp = None \<and> \<not> post then False else True) (default_system f)")
    case (Inl e)
    have "post_init_st st f = Inl e"
      unfolding unf using Inl by simp
    moreover have "post_init (view_fields st f) = Inl e"
      using Inl by (simp add: post_init_def mv vf Let_def pst [symmetric] spn)
    ultimately show ?thesis by simp
  next
    case (Inr sys)
    define m :: TemplateMeta_ref where "m =
       \<lparr> template_type = template_type f, prefix = pre, prompt = prm,
         chat_sep = chat_sep f, suffix = suffix f, template_cls = template_cls f,
         tool_prompt = (if tool_prompt f = None then Some prm else tool_prompt f),
         system_prefix = sp, auto_add_bos = auto_add_bos f, default_system = Some sys,
         stop_words = stop_words f, placeholder_tokens = placeholder_tokens f,
         skip_prompt = skip_prompt f, default_tools_prompt = default_tools_prompt f,
         support_stream = support_stream f, is_post_system = post,
         system_prompt = (if post then Some prm else None),
         support_system = (if sp = None \<and> \<not> post then False else True),
         support_multi_round = (chat_sep f \<noteq> None) \<rparr>"
    have e: "post_init_st st f = Inr (st2, m)"
      unfolding unf m_def using Inr by simp
    have tp: "map_option (view_list st2) (if tool_prompt f = None then Some prm else tool_prompt f)
              = (if tool_prompt f = None then Some (view_list st2 prm)
                 else map_option (view_list st) (tool_prompt f))"
      using opt(2) by simp
    have v: "view_meta st2 m =
       \<lparr> template_type = template_type f, prefix = view_list st1 pre,
         prompt = view_list st2 prm,
         chat_sep = map_option (view_list st) (chat_sep f), suffix = view_list st (suffix f),
         template_cls = template_cls f,
         tool_prompt = (if tool_prompt f = None then Some (view_list st2 prm)
                 else map_option (view_list st) (tool_prompt f)),
         system_prefix = map_option (view_list st1) sp, auto_add_bos = auto_add_bos f,
         default_system = Some sys,
         stop_words = view_list st (stop_words f),
         placeholder_tokens = get_toks st (placeholder_tokens f),
         skip_prompt = skip_prompt f, default_tools_prompt = default_tools_prompt f,
         support_stream = support_stream f, is_post_system = post,
         system_prompt = (if post then Some (view_list st2 prm) else None),
         support_system = (if sp = None \<and> \<not> post then False else True),
         support_multi_round = (chat_sep f \<noteq> None) \<rparr>"
      unfolding view_meta_def
      by (simp add: m_def vpre vsp tp opt(1) tk2 old w)
    have "post_init (view_fields st f) = Inr (view_meta st2 m)"
      unfolding v using Inr
      by (simp add: post_init_def mv vf Let_def pst [symmetric] spn vprm)
    with e show ?thesis by simp
  qed
qed


theorem post_init_st_refines_witness:
  "wf_fields argument_store argument_fields
   \<and> \<not> isl (post_init_st argument_store argument_fields)
   \<and> post_init (view_fields argument_store argument_fields)
       = Inr (view_meta (fst (projr (post_init_st argument_store argument_fields)))
                        (snd (projr (post_init_st argument_store argument_fields))))
   \<and> prompt (view_meta (fst (projr (post_init_st argument_store argument_fields)))
                        (snd (projr (post_init_st argument_store argument_fields))))
       = [Toks [TStr ''bos_token_id''], Str ''{{QUERY}}'']"
proof -
  have wf: "wf_fields argument_store argument_fields"
    by (simp add: wf_fields_def argument_store_def argument_fields_def)
  have e: "post_init_st argument_store argument_fields
           = Inr (fst (projr (post_init_st argument_store argument_fields)),
                  snd (projr (post_init_st argument_store argument_fields)))"
    by (simp add: post_init_st_def move_system_st_def check_system_def new_list_def
        argument_store_def argument_fields_def view_list_def get_list_def get_toks_def
        has_system_def startswith_def SYSTEM_def str_replace.simps Let_def)
  have p: "prompt (view_meta (fst (projr (post_init_st argument_store argument_fields)))
                        (snd (projr (post_init_st argument_store argument_fields))))
       = [Toks [TStr ''bos_token_id''], Str ''{{QUERY}}'']"
    by (simp add: post_init_st_def move_system_st_def check_system_def new_list_def
        argument_store_def argument_fields_def view_list_def get_list_def get_toks_def
        has_system_def startswith_def SYSTEM_def str_replace.simps Let_def view_meta_def)
  have i: "\<not> isl (post_init_st argument_store argument_fields)"
    by (subst e) simp
  from post_init_st_refines [OF wf]
  have "post_init (view_fields argument_store argument_fields)
       = Inr (view_meta (fst (projr (post_init_st argument_store argument_fields)))
                        (snd (projr (post_init_st argument_store argument_fields))))"
    by (subst (asm) e) (simp add: case_prod_beta)
  with wf i p show ?thesis by blast
qed


section \<open>Properties of the registry\<close>

text \<open>
  Claim C6. Registering a template type that is already in the registry, without
  \<open>exist_ok\<close>, raises \<open>ValueError\<close> and leaves the registry as it was. With \<open>exist_ok\<close>,
  or for a template type not yet registered, the call succeeds and the registry maps
  the template type to the new entry, every other key being as before.
\<close>

theorem register_template_spec:
  "(M (template_type tm) \<noteq> None \<longrightarrow> register_template tm False kw M = (Inl ValueError, M))
   \<and> (exist_ok \<or> M (template_type tm) = None \<longrightarrow>
        register_template tm exist_ok kw M
          = (Inr (), M(template_type tm \<mapsto> \<lparr> template_meta = tm, kwargs = kw \<rparr>)))"
  by (simp add: register_template_def)

theorem register_template_spec_witness:
  "register_template (projr (post_init chatml)) False []
     ((Map.empty :: string \<rightharpoonup> nat template_info)
        (''chatml'' \<mapsto> \<lparr> template_meta = projr (post_init no_system), kwargs = [] \<rparr>))
   = (Inl ValueError,
      Map.empty (''chatml'' \<mapsto> \<lparr> template_meta = projr (post_init no_system), kwargs = [] \<rparr>))
   \<and> register_template (projr (post_init chatml)) True []
     ((Map.empty :: string \<rightharpoonup> nat template_info)
        (''chatml'' \<mapsto> \<lparr> template_meta = projr (post_init no_system), kwargs = [] \<rparr>))
   = (Inr (),
      Map.empty (''chatml'' \<mapsto> \<lparr> template_meta = projr (post_init chatml), kwargs = [] \<rparr>))
   \<and> register_template (projr (post_init chatml)) False [] (Map.empty :: string \<rightharpoonup> nat template_info)
   = (Inr (),
      Map.empty (''chatml'' \<mapsto> \<lparr> template_meta = projr (post_init chatml), kwargs = [] \<rparr>))"
proof -
  have t: "template_type (projr (post_init chatml)) = ''chatml''"
    by (simp add: chatml_def eval_defs)
  let ?M = "(Map.empty :: string \<rightharpoonup> nat template_info)
        (''chatml'' \<mapsto> \<lparr> template_meta = projr (post_init no_system), kwargs = [] \<rparr>)"
  have a: "?M (template_type (projr (post_init chatml))) \<noteq> None"
    by (simp only: t) simp
  have b: "(Map.empty :: string \<rightharpoonup> nat template_info) (template_type (projr (post_init chatml)))
           = None"
    by simp
  from register_template_spec [of ?M "projr (post_init chatml)" "[]" True] a
  have 1: "register_template (projr (post_init chatml)) False [] ?M = (Inl ValueError, ?M)"
    and 2: "register_template (projr (post_init chatml)) True [] ?M
            = (Inr (), ?M(template_type (projr (post_init chatml))
                 \<mapsto> \<lparr> template_meta = projr (post_init chatml), kwargs = [] \<rparr>))"
    by blast+
  from register_template_spec [of "Map.empty :: string \<rightharpoonup> nat template_info"
      "projr (post_init chatml)" "[]" False] b
  have 3: "register_template (projr (post_init chatml)) False []
             (Map.empty :: string \<rightharpoonup> nat template_info)
           = (Inr (), Map.empty (template_type (projr (post_init chatml))
                 \<mapsto> \<lparr> template_meta = projr (post_init chatml), kwargs = [] \<rparr>))"
    by blast
  show ?thesis
    using 1 2 3 by (simp only: t) simp
qed

section \<open>Properties of the mean metric\<close>










end
